theory Spec2Isabelle
  imports Main "HOL-Library.Word"
begin

unbundle bit_operations_syntax

section \<open>The UDP listener of gortsplib (server\_udp\_listener.go)\<close>

text \<open>
  The development follows the source file from top to bottom: the address key
  \<open>clientAddr\<close> and its method \<open>fill\<close>, the registry of per-peer callbacks, the
  receive loop \<open>run\<close> with the shutdown protocol of \<open>close\<close>, the multicast joiner and
  the two constructors. Calls into the Go standard library and the operating system
  are parameters of the model.
\<close>

subsection \<open>Bytes, addresses and the builtin \<open>copy\<close>\<close>

type_synonym byte = "8 word"

text \<open>\<open>net.IP\<close> is a byte slice; \<open>net.IPv4len = 4\<close> and \<open>net.IPv6len = 16\<close>.\<close>

type_synonym IP = "byte list"

definition IPv4len :: nat where
  "IPv4len = 4"

definition IPv6len :: nat where
  "IPv6len = 16"

text \<open>
  Go's \<open>copy(dst, src)\<close> overwrites the first \<open>min (len dst) (len src)\<close> elements of
  \<open>dst\<close>. \<open>copy_at arr off src\<close> is \<open>copy(arr[off:], src)\<close> on a fixed-size array
  \<open>arr\<close>: the array after the call.
\<close>

definition copy_at :: "'a list \<Rightarrow> nat \<Rightarrow> 'a list \<Rightarrow> 'a list" where
  "copy_at arr off src =
     (let k = min (length arr - off) (length src)
      in take off arr @ take k src @ drop (off + k) arr)"

subsection \<open>\<open>clientAddr\<close> (lines 50-64)\<close>

text \<open>
  \<open>ip\<close> is the array \<open>[net.IPv6len]byte\<close>, a list of 16 bytes here; \<open>port\<close> is a Go
  \<open>int\<close>, on which the file does no arithmetic.
\<close>

record clientAddr =
  ip :: "byte list"
  port :: int

text \<open>The zero value of the struct, what \<open>var addr clientAddr\<close> declares.\<close>

definition clientAddr_zero :: clientAddr where
  "clientAddr_zero = \<lparr>ip = replicate IPv6len 0, port = 0\<rparr>"

text \<open>The literal of line 59.\<close>

definition v4InV6Prefix :: "byte list" where
  "v4InV6Prefix = [0, 0, 0, 0, 0, 0, 0, 0, 0, 0, 0xff, 0xff]"

definition fill :: "clientAddr \<Rightarrow> IP \<Rightarrow> int \<Rightarrow> clientAddr" where
  "fill p rawIP prt =
     (let p1 = p\<lparr>port := prt\<rparr> in
      if length rawIP = IPv4len then
        (let p2 = p1\<lparr>ip := copy_at (ip p1) 0 v4InV6Prefix\<rparr>
         in p2\<lparr>ip := copy_at (ip p2) 12 rawIP\<rparr>)
      else p1\<lparr>ip := copy_at (ip p1) 0 rawIP\<rparr>)"

text \<open>
  Every caller builds its key the same way (lines 196-197, 217-218, 227-228):
  a fresh zero \<open>clientAddr\<close>, then \<open>fill\<close>.
\<close>

definition PeerKey :: "IP \<Rightarrow> int \<Rightarrow> clientAddr" where
  "PeerKey rawIP prt = fill clientAddr_zero rawIP prt"

subsection \<open>The listener and its registry (lines 66-74, 216-234)\<close>

text \<open>
  \<open>net.UDPAddr\<close>, and a socket as a handle: \<open>conn_id\<close> names it, \<open>is_UDPConn\<close> says
  whether its dynamic type is \<open>*net.UDPConn\<close> (lines 140 and 147 assert it), and
  \<open>LocalAddr\<close> is what \<open>LocalAddr()\<close> reports.
\<close>

record UDPAddr =
  IP :: "byte list"
  Port :: int

record PacketConn =
  conn_id :: nat
  is_UDPConn :: bool
  LocalAddr :: UDPAddr

text \<open>
  The struct \<open>serverUDPListener\<close>. The callback type \<open>readFunc\<close> is declared in
  another file, so the registry is polymorphic in it. \<open>done_chan\<close> is the channel
  \<open>done\<close>: nothing is ever sent on it, so its state is the number of
  \<open>close(u.done)\<close> executed, \<open>0\<close> for the channel \<open>make\<close> returns. The mutex
  \<open>clientsMutex\<close> has no field: the sections it guards are atomic steps below.
\<close>

record 'h serverUDPListener =
  pc :: PacketConn
  listenIP :: "byte list"
  writeTimeout :: int
  clients :: "clientAddr \<rightharpoonup> 'h"
  done_chan :: nat

definition addClient :: "'h serverUDPListener \<Rightarrow> IP \<Rightarrow> int \<Rightarrow> 'h \<Rightarrow> 'h serverUDPListener" where
  "addClient u rawIP prt cb =
     (let addr = fill clientAddr_zero rawIP prt
      in u\<lparr>clients := (clients u)(addr \<mapsto> cb)\<rparr>)"

definition removeClient :: "'h serverUDPListener \<Rightarrow> IP \<Rightarrow> int \<Rightarrow> 'h serverUDPListener" where
  "removeClient u rawIP prt =
     (let addr = fill clientAddr_zero rawIP prt
      in u\<lparr>clients := (clients u)(addr := None)\<rparr>)"

subsection \<open>The receive loop and \<open>close\<close> (lines 169-172, 182-206)\<close>

text \<open>
  A callback runs on the state \<open>'w\<close> of its owner and either returns or panics.
\<close>

datatype 'w handled = Returned 'w | Panicked 'w

type_synonym 'w readFunc = "byte list \<Rightarrow> 'w \<Rightarrow> 'w handled"

text \<open>
  A datagram waiting in the socket, and \<open>ReadFromUDP(buf)\<close> delivering it: the
  library call copies as much of the payload as the buffer holds and returns the
  number of bytes copied and the sender (the buffer after the call comes third).
\<close>

record datagram =
  payload :: "byte list"
  sender :: UDPAddr

definition ReadFromUDP :: "datagram \<Rightarrow> byte list \<Rightarrow> nat \<times> UDPAddr \<times> byte list" where
  "ReadFromUDP d buf =
     (min (length (payload d)) (length buf), sender d, copy_at buf 0 (payload d))"

text \<open>
  The goroutine of \<open>run\<close> is either blocked in the read of line 187, or holds the
  result \<open>n, addr, buf\<close> of a successful read before the closure of lines 192-204,
  or has left the function. The caller of \<open>close\<close> is before line 170, between
  lines 170 and 171, or back from the call.
\<close>

datatype run_pc = RunRead | RunBody nat UDPAddr "byte list" | RunExited

datatype close_pc = CloseNotCalled | CloseWaiting | CloseReturned

text \<open>
  The state of one running listener: the struct, whether its socket has been closed,
  the two program counters, the state the callbacks act on, and three observers
  that no step reads: the keys the loop looked up, the callback invocations (key and
  argument) and whether a callback panicked.
\<close>

record 'w machine =
  listener :: "'w readFunc serverUDPListener"
  sock_closed :: bool
  run_at :: run_pc
  close_at :: close_pc
  world :: 'w
  lookups :: "clientAddr list"
  calls :: "(clientAddr \<times> byte list) list"
  panicked :: bool

text \<open>Leaving \<open>run\<close>, by \<open>break\<close> or by a panic: the deferred \<open>close(u.done)\<close> of line 183.\<close>

definition run_exit :: "'w machine \<Rightarrow> 'w machine" where
  "run_exit s =
     s\<lparr>run_at := RunExited,
       listener := (listener s)\<lparr>done_chan := Suc (done_chan (listener s))\<rparr>\<rparr>"

text \<open>
  The closure of lines 192-204, run under the read lock with the result of the read.
  A missing key returns from the closure and the loop goes on; a callback that
  returns lets the loop go on; a callback that panics unwinds \<open>run\<close>.
\<close>

definition run_body :: "'w machine \<Rightarrow> nat \<Rightarrow> UDPAddr \<Rightarrow> byte list \<Rightarrow> 'w machine" where
  "run_body s n addr buf =
     (let clientAddr = fill clientAddr_zero (IP addr) (Port addr);
          s1 = s\<lparr>lookups := lookups s @ [clientAddr]\<rparr>
      in case clients (listener s1) clientAddr of
           None \<Rightarrow> s1\<lparr>run_at := RunRead\<rparr>
         | Some cb \<Rightarrow>
             (let s2 = s1\<lparr>calls := calls s1 @ [(clientAddr, take n buf)]\<rparr>
              in case cb (take n buf) (world s2) of
                   Returned w \<Rightarrow> s2\<lparr>world := w, run_at := RunRead\<rparr>
                 | Panicked w \<Rightarrow> run_exit (s2\<lparr>world := w, panicked := True\<rparr>)))"

text \<open>
  The atomic steps of the listener and of the goroutines around it. \<open>Recv d\<close>: the
  read of line 187 returns datagram \<open>d\<close> in a fresh buffer of \<open>udpMaxPayloadSize + 1\<close>
  zero bytes (possible while the socket is open). \<open>ReadErr\<close>: the read returns an
  error (the only result once the socket is closed). \<open>Body\<close>: the closure.
  \<open>SocketClose\<close>: line 170. \<open>AwaitDone\<close>: the receive of line 171, which proceeds
  only on a closed channel. \<open>AddClient\<close> and \<open>RemoveClient\<close>: calls of the two
  registry methods by other goroutines, which the write lock keeps out of the closure.
\<close>

datatype 'w event =
    Recv datagram
  | ReadErr
  | Body
  | SocketClose
  | AwaitDone
  | AddClient "byte list" int "'w readFunc"
  | RemoveClient "byte list" int

text \<open>
  \<open>step mx s e\<close> is the state after event \<open>e\<close>, or \<open>None\<close> when \<open>e\<close> cannot happen in
  \<open>s\<close>. The constant \<open>udpMaxPayloadSize\<close> is declared in another file and is the
  parameter \<open>mx\<close>.
\<close>

fun step :: "nat \<Rightarrow> 'w machine \<Rightarrow> 'w event \<Rightarrow> 'w machine option" where
  "step mx s (Recv d) =
     (if run_at s = RunRead \<and> \<not> sock_closed s then
        (case ReadFromUDP d (replicate (mx + 1) 0) of
           (n, addr, buf) \<Rightarrow> Some (s\<lparr>run_at := RunBody n addr buf\<rparr>))
      else None)"
| "step mx s ReadErr =
     (if run_at s = RunRead then Some (run_exit s) else None)"
| "step mx s Body =
     (case run_at s of
        RunBody n addr buf \<Rightarrow> Some (run_body s n addr buf)
      | _ \<Rightarrow> None)"
| "step mx s SocketClose =
     (if close_at s = CloseNotCalled
      then Some (s\<lparr>sock_closed := True, close_at := CloseWaiting\<rparr>)
      else None)"
| "step mx s AwaitDone =
     (if close_at s = CloseWaiting \<and> 0 < done_chan (listener s)
      then Some (s\<lparr>close_at := CloseReturned\<rparr>)
      else None)"
| "step mx s (AddClient rawIP prt cb) =
     Some (s\<lparr>listener := addClient (listener s) rawIP prt cb\<rparr>)"
| "step mx s (RemoveClient rawIP prt) =
     Some (s\<lparr>listener := removeClient (listener s) rawIP prt\<rparr>)"

fun exec :: "nat \<Rightarrow> 'w machine \<Rightarrow> 'w event list \<Rightarrow> 'w machine option" where
  "exec mx s [] = Some s"
| "exec mx s (e # es) =
     (case step mx s e of None \<Rightarrow> None | Some s' \<Rightarrow> exec mx s' es)"

text \<open>
  The state in which \<open>newServerUDPListener\<close> leaves a listener \<open>u\<close> at \<open>go u.run()\<close>
  (line 164).
\<close>

definition started :: "'w readFunc serverUDPListener \<Rightarrow> 'w \<Rightarrow> 'w machine" where
  "started u w =
     \<lparr>listener = u, sock_closed = False, run_at = RunRead, close_at = CloseNotCalled,
      world = w, lookups = [], calls = [], panicked = False\<rparr>"

text \<open>
  What holds between the two goroutines in every state: the channel has been closed
  once if \<open>run\<close> has left and not at all otherwise, \<open>close\<close> closes the socket before
  it waits, and it is back only after \<open>run\<close> has left.
\<close>

definition rendezvous_inv :: "'w machine \<Rightarrow> bool" where
  "rendezvous_inv s \<longleftrightarrow>
     done_chan (listener s) = (if run_at s = RunExited then 1 else 0)
     \<and> (close_at s = CloseNotCalled \<or> sock_closed s)
     \<and> (close_at s \<noteq> CloseReturned \<or> run_at s = RunExited)"

subsection \<open>Errors, the operating system and the library\<close>

text \<open>
  A Go \<open>error\<close> is either built in this file by \<open>fmt.Errorf\<close> (line 44) or handed
  back by a library call.
\<close>

datatype error = Errorf string | LibError string

text \<open>\<open>net.Interface\<close>; \<open>net.Flags\<close> is a \<open>uint\<close> and \<open>net.FlagMulticast\<close> is \<open>1 << 4\<close>.\<close>

record Interface =
  Index :: int
  Name :: string
  Flags :: "64 word"

definition FlagMulticast :: "64 word" where
  "FlagMulticast = push_bit 4 1"

text \<open>
  What the constructors do to the operating system: the sockets the factory has
  opened, the handles on which \<open>Close\<close> was called, the group memberships joined,
  the receive-buffer sizes requested (handle and size), and the handles whose
  receive loop has been started by \<open>go u.run()\<close> and has not been shut down.
\<close>

record sys =
  opened :: "PacketConn list"
  closed :: "nat list"
  memberships :: "(nat \<times> Interface \<times> byte list) list"
  readBuffers :: "(nat \<times> int) list"
  loops :: "nat list"

text \<open>
  Everything the file calls and does not define. \<open>restrictNetwork\<close>, \<open>multicastTTL\<close>
  and \<open>udpKernelReadBufferSize\<close> belong to other files of the package; the others
  are \<open>net\<close>, \<open>strconv\<close> and \<open>ipv4\<close>. A setter answers with its error, if any.
\<close>

record lib =
  restrictNetwork :: "string \<Rightarrow> string \<Rightarrow> string \<times> string"
  multicastTTL :: int
  udpKernelReadBufferSize :: int
  SplitHostPort :: "string \<Rightarrow> error + string \<times> string"
  JoinHostPort :: "string \<Rightarrow> string \<Rightarrow> string"
  IP_String :: "byte list \<Rightarrow> string"
  FormatInt :: "int \<Rightarrow> int \<Rightarrow> string"
  ParseIP :: "string \<Rightarrow> byte list"
  Interfaces :: "error + Interface list"
  JoinGroup :: "PacketConn \<Rightarrow> Interface \<Rightarrow> byte list \<Rightarrow> error option"
  SetMulticastTTL :: "PacketConn \<Rightarrow> int \<Rightarrow> error option"
  SetReadBuffer :: "PacketConn \<Rightarrow> int \<Rightarrow> error option"

text \<open>
  The socket factory \<open>listenPacket\<close> is an argument of both constructors. It may
  answer differently from call to call, so it sees the state of the system.
\<close>

type_synonym factory = "string \<Rightarrow> string \<Rightarrow> sys \<Rightarrow> error + PacketConn"

text \<open>What a constructor hands back: its value, its error, or a failed type assertion.\<close>

datatype 'a result = Ok 'a | Err error | TypeAssertPanic

subsection \<open>\<open>joinMulticastGroupOnAtLeastOneInterface\<close> (lines 26-48)\<close>

text \<open>The loop of lines 34-41, threading \<open>success\<close> and the memberships.\<close>

fun join_loop :: "lib \<Rightarrow> PacketConn \<Rightarrow> byte list \<Rightarrow> Interface list \<Rightarrow> bool \<times> sys \<Rightarrow> bool \<times> sys" where
  "join_loop L p lip [] acc = acc"
| "join_loop L p lip (intf # intfs) (success, s) =
     (if Flags intf AND FlagMulticast \<noteq> 0 then
        (case JoinGroup L p intf lip of
           None \<Rightarrow>
             join_loop L p lip intfs
               (True, s\<lparr>memberships := memberships s @ [(conn_id p, intf, lip)]\<rparr>)
         | Some err \<Rightarrow> join_loop L p lip intfs (success, s))
      else join_loop L p lip intfs (success, s))"

definition joinMulticastGroupOnAtLeastOneInterface ::
    "lib \<Rightarrow> PacketConn \<Rightarrow> byte list \<Rightarrow> sys \<Rightarrow> error option \<times> sys" where
  "joinMulticastGroupOnAtLeastOneInterface L p lip s =
     (case Interfaces L of
        Inl err \<Rightarrow> (Some err, s)
      | Inr intfs \<Rightarrow>
          (case join_loop L p lip intfs (False, s) of
             (success, s') \<Rightarrow>
               if \<not> success
               then (Some (Errorf ''unable to activate multicast on any network interface''), s')
               else (None, s')))"

subsection \<open>\<open>newServerUDPListener\<close> (lines 107-167)\<close>

text \<open>
  Lines 113-149: the socket and the listen address, by the multicast or the unicast
  branch. Every \<open>return nil, err\<close> of the branch is an \<open>Err\<close> here.
\<close>

definition listen_socket ::
    "lib \<Rightarrow> factory \<Rightarrow> bool \<Rightarrow> string \<Rightarrow> sys \<Rightarrow> (PacketConn \<times> byte list) result \<times> sys" where
  "listen_socket L listenPacket multicast address s =
     (if multicast then
        (case SplitHostPort L address of
           Inl err \<Rightarrow> (Err err, s)
         | Inr (host, prt) \<Rightarrow>
             (case restrictNetwork L ''udp'' (''224.0.0.0:'' @ prt) of
                (network, addr) \<Rightarrow>
                  (case listenPacket network addr s of
                     Inl err \<Rightarrow> (Err err, s)
                   | Inr tmp \<Rightarrow>
                       (let s1 = s\<lparr>opened := opened s @ [tmp]\<rparr>
                        in case SetMulticastTTL L tmp (multicastTTL L) of
                             Some err \<Rightarrow> (Err err, s1)
                           | None \<Rightarrow>
                               (let lip = ParseIP L host
                                in case joinMulticastGroupOnAtLeastOneInterface L tmp lip s1 of
                                     (Some err, s2) \<Rightarrow> (Err err, s2)
                                   | (None, s2) \<Rightarrow>
                                       if is_UDPConn tmp then (Ok (tmp, lip), s2)
                                       else (TypeAssertPanic, s2))))))
      else
        (case restrictNetwork L ''udp'' address of
           (network, addr) \<Rightarrow>
             (case listenPacket network addr s of
                Inl err \<Rightarrow> (Err err, s)
              | Inr tmp \<Rightarrow>
                  (let s1 = s\<lparr>opened := opened s @ [tmp]\<rparr>
                   in if is_UDPConn tmp then (Ok (tmp, IP (LocalAddr tmp)), s1)
                      else (TypeAssertPanic, s1)))))"

text \<open>
  The whole constructor: the socket, then lines 151-166, the receive buffer, the
  struct and \<open>go u.run()\<close>.
\<close>

definition newServerUDPListener ::
    "lib \<Rightarrow> factory \<Rightarrow> int \<Rightarrow> bool \<Rightarrow> string \<Rightarrow> sys \<Rightarrow> 'h serverUDPListener result \<times> sys" where
  "newServerUDPListener L listenPacket wt multicast address s =
     (case listen_socket L listenPacket multicast address s of
        (Err err, s1) \<Rightarrow> (Err err, s1)
      | (TypeAssertPanic, s1) \<Rightarrow> (TypeAssertPanic, s1)
      | (Ok (c, lip), s1) \<Rightarrow>
          (let s2 = s1\<lparr>readBuffers := readBuffers s1 @ [(conn_id c, udpKernelReadBufferSize L)]\<rparr>
           in case SetReadBuffer L c (udpKernelReadBufferSize L) of
                Some err \<Rightarrow> (Err err, s2)
              | None \<Rightarrow>
                  (Ok \<lparr>pc = c, listenIP = lip, writeTimeout = wt,
                       clients = Map.empty, done_chan = 0\<rparr>,
                   s2\<lparr>loops := loops s2 @ [conn_id c]\<rparr>)))"

subsection \<open>\<open>close\<close> and \<open>newServerUDPListenerMulticastPair\<close> (lines 76-105)\<close>

text \<open>
  \<open>close\<close> as its caller sees it: the socket is closed and, when the call returns,
  the receive loop of the listener has ended (the invariant \<open>rendezvous_inv\<close> of the
  two goroutines says so).
\<close>

definition close :: "'h serverUDPListener \<Rightarrow> sys \<Rightarrow> sys" where
  "close u s =
     s\<lparr>closed := closed s @ [conn_id (pc u)],
       loops := removeAll (conn_id (pc u)) (loops s)\<rparr>"

definition newServerUDPListenerMulticastPair ::
    "lib \<Rightarrow> factory \<Rightarrow> int \<Rightarrow> int \<Rightarrow> int \<Rightarrow> byte list \<Rightarrow> sys
      \<Rightarrow> ('h serverUDPListener \<times> 'h serverUDPListener) result \<times> sys" where
  "newServerUDPListenerMulticastPair L listenPacket wt multicastRTPPort multicastRTCPPort ipaddr s =
     (case newServerUDPListener L listenPacket wt True
             (JoinHostPort L (IP_String L ipaddr) (FormatInt L multicastRTPPort 10)) s of
        (Err err, s1) \<Rightarrow> (Err err, s1)
      | (TypeAssertPanic, s1) \<Rightarrow> (TypeAssertPanic, s1)
      | (Ok rtpl, s1) \<Rightarrow>
          (case newServerUDPListener L listenPacket wt True
                  (JoinHostPort L (IP_String L ipaddr) (FormatInt L multicastRTCPPort 10)) s1 of
             (Err err, s2) \<Rightarrow> (Err err, close rtpl s2)
           | (TypeAssertPanic, s2) \<Rightarrow> (TypeAssertPanic, s2)
           | (Ok rtcpl, s2) \<Rightarrow> (Ok (rtpl, rtcpl), s2)))"

text \<open>The sockets that have been opened and never closed.\<close>

definition leaked :: "sys \<Rightarrow> nat list" where
  "leaked s = filter (\<lambda>i. i \<notin> set (closed s)) (map conn_id (opened s))"

subsection \<open>A listener to run\<close>

text \<open>
  Concrete values for the examples below: two callbacks on a log of payloads, the
  scenario's listener on \<open>127.0.0.1\<close> with a callback registered for
  \<open>127.0.0.1:5000\<close>, and the datagram \<open>ping\<close> from an address.
\<close>

definition log_payload :: "byte list list readFunc" where
  "log_payload b w = Returned (w @ [b])"

definition panicking :: "byte list list readFunc" where
  "panicking b w = Panicked w"

definition demo_conn :: PacketConn where
  "demo_conn = \<lparr>conn_id = 1, is_UDPConn = True,
                 LocalAddr = \<lparr>IP = [127, 0, 0, 1], Port = 8000\<rparr>\<rparr>"

definition demo_listener :: "byte list list readFunc serverUDPListener" where
  "demo_listener =
     addClient \<lparr>pc = demo_conn, listenIP = [127, 0, 0, 1], writeTimeout = 10,
                clients = Map.empty, done_chan = 0\<rparr>
       [127, 0, 0, 1] 5000 log_payload"

definition ping :: "byte list" where
  "ping = [0x70, 0x69, 0x6e, 0x67]"

definition ping_from :: "int \<Rightarrow> datagram" where
  "ping_from prt = \<lparr>payload = ping, sender = \<lparr>IP = [127, 0, 0, 1], Port = prt\<rparr>\<rparr>"

text \<open>
  A shutdown in the middle of a dispatch: \<open>ping\<close> arrives from \<open>127.0.0.1:5000\<close>, the
  socket is closed before the closure runs, the closure runs, the next read fails,
  and \<open>close\<close> returns.
\<close>

definition demo_trace :: "byte list list event list" where
  "demo_trace = [Recv (ping_from 5000), SocketClose, Body, ReadErr, AwaitDone]"

text \<open>
  A host for the constructors: three interfaces as Go reports them (\<open>lo\<close> is up,
  loopback and running; \<open>eth0\<close> and \<open>wlan0\<close> are multicast-capable), a library on
  which every call succeeds and only \<open>eth0\<close> accepts a multicast join, a factory that
  hands out a fresh handle on every call, and variations in which one call fails.
\<close>

definition lo :: Interface where
  "lo = \<lparr>Index = 1, Name = ''lo'', Flags = 0x25\<rparr>"

definition eth0 :: Interface where
  "eth0 = \<lparr>Index = 2, Name = ''eth0'', Flags = 0x33\<rparr>"

definition wlan0 :: Interface where
  "wlan0 = \<lparr>Index = 3, Name = ''wlan0'', Flags = 0x13\<rparr>"

definition demo_lib :: lib where
  "demo_lib =
     \<lparr>restrictNetwork = (\<lambda>network address. (''udp4'', address)),
      multicastTTL = 16,
      udpKernelReadBufferSize = 0x80000,
      SplitHostPort = (\<lambda>address.
         if CHR '':'' \<in> set address
         then Inr (takeWhile (\<lambda>c. c \<noteq> CHR '':'') address,
                   tl (dropWhile (\<lambda>c. c \<noteq> CHR '':'') address))
         else Inl (LibError ''missing port in address'')),
      JoinHostPort = (\<lambda>host prt. host @ '':'' @ prt),
      IP_String = (\<lambda>a. ''224.1.0.1''),
      FormatInt = (\<lambda>n base. if n = 5000 then ''5000'' else ''5001''),
      ParseIP = (\<lambda>host. [0, 0, 0, 0, 0, 0, 0, 0, 0, 0, 0xff, 0xff, 224, 1, 0, 1]),
      Interfaces = Inr [lo, eth0, wlan0],
      JoinGroup = (\<lambda>c intf a. if Name intf = ''eth0'' then None
                               else Some (LibError ''no such device'')),
      SetMulticastTTL = (\<lambda>c ttl. None),
      SetReadBuffer = (\<lambda>c n. None)\<rparr>"

definition demo_factory :: factory where
  "demo_factory network address s =
     Inr \<lparr>conn_id = Suc (length (opened s)), is_UDPConn = True,
          LocalAddr = \<lparr>IP = [0, 0, 0, 0], Port = 5000\<rparr>\<rparr>"

definition busy_factory :: "string \<Rightarrow> factory" where
  "busy_factory busy network address s =
     (if address = busy then Inl (LibError ''bind: address already in use'')
      else demo_factory network address s)"

definition sys_empty :: sys where
  "sys_empty = \<lparr>opened = [], closed = [], memberships = [], readBuffers = [], loops = []\<rparr>"

definition no_multicast :: lib where
  "no_multicast = demo_lib\<lparr>Interfaces := Inr [lo]\<rparr>"

definition ttl_denied :: lib where
  "ttl_denied = demo_lib\<lparr>SetMulticastTTL := (\<lambda>c ttl. Some (LibError ''setsockopt: invalid argument''))\<rparr>"

definition buffer_denied :: "nat \<Rightarrow> lib" where
  "buffer_denied i =
     demo_lib\<lparr>SetReadBuffer := (\<lambda>c n. if conn_id c = i
        then Some (LibError ''setsockopt: operation not permitted'') else None)\<rparr>"

type_synonym demo_result = "byte list list readFunc serverUDPListener result \<times> sys"

type_synonym demo_pair =
  "(byte list list readFunc serverUDPListener \<times> byte list list readFunc serverUDPListener) result \<times> sys"

definition all_refuse :: lib where
  "all_refuse = demo_lib\<lparr>JoinGroup := (\<lambda>c intf a. Some (LibError ''no such device''))\<rparr>"

definition conn1 :: PacketConn where
  "conn1 = \<lparr>conn_id = 1, is_UDPConn = True, LocalAddr = \<lparr>IP = [0, 0, 0, 0], Port = 5000\<rparr>\<rparr>"

definition group_ip :: "byte list" where
  "group_ip = [0, 0, 0, 0, 0, 0, 0, 0, 0, 0, 0xff, 0xff, 224, 1, 0, 1]"

subsection \<open>Properties of \<open>fill\<close>\<close>

lemma copy_at_length: "length (copy_at arr off src) = length arr"
  by (simp add: copy_at_def Let_def min_def)

lemma fill_length: "length (ip (fill p rawIP prt)) = length (ip p)"
  by (simp add: fill_def Let_def copy_at_length)

lemma fill_v4:
  assumes "length (ip p) = 16" and "length rawIP = 4"
  shows "fill p rawIP prt = \<lparr>ip = v4InV6Prefix @ rawIP, port = prt\<rparr>"
  using assms by (simp add: fill_def Let_def copy_at_def IPv4len_def v4InV6Prefix_def)

lemma fill_v6:
  assumes "length (ip p) = 16" and "length rawIP = 16"
  shows "fill p rawIP prt = \<lparr>ip = rawIP, port = prt\<rparr>"
  using assms by (simp add: fill_def Let_def copy_at_def IPv4len_def)

lemma PeerKey_v4: "length rawIP = 4 \<Longrightarrow> PeerKey rawIP prt = \<lparr>ip = v4InV6Prefix @ rawIP, port = prt\<rparr>"
  by (simp add: PeerKey_def fill_v4 clientAddr_zero_def IPv6len_def)

lemma PeerKey_v6: "length rawIP = 16 \<Longrightarrow> PeerKey rawIP prt = \<lparr>ip = rawIP, port = prt\<rparr>"
  by (simp add: PeerKey_def fill_v6 clientAddr_zero_def IPv6len_def)

text \<open>
  Claim C3. A call \<open>fill(rawIP, port)\<close> on any \<open>clientAddr\<close> (its array has 16
  bytes) stores the 12-byte prefix \<open>00 .. 00 ff ff\<close> followed by the four address
  bytes when \<open>rawIP\<close> has 4 bytes, stores a 16-byte \<open>rawIP\<close> as it is, and sets the
  port field to the given port in every case.
\<close>

theorem fill_normalizes:
  assumes "length (ip p) = 16"
  shows "(length rawIP = 4 \<longrightarrow>
            ip (fill p rawIP prt) = [0, 0, 0, 0, 0, 0, 0, 0, 0, 0, 0xff, 0xff] @ rawIP)
       \<and> (length rawIP = 16 \<longrightarrow> ip (fill p rawIP prt) = rawIP)
       \<and> port (fill p rawIP prt) = prt"
proof (intro conjI impI)
  assume "length rawIP = 4"
  with assms show "ip (fill p rawIP prt) = [0, 0, 0, 0, 0, 0, 0, 0, 0, 0, 0xff, 0xff] @ rawIP"
    by (simp add: fill_v4 v4InV6Prefix_def)
next
  assume "length rawIP = 16"
  with assms show "ip (fill p rawIP prt) = rawIP"
    by (simp add: fill_v6)
next
  show "port (fill p rawIP prt) = prt"
    by (simp add: fill_def Let_def)
qed

theorem fill_normalizes_witness:
  "ip (fill clientAddr_zero [192, 168, 1, 7] 5000)
     = [0, 0, 0, 0, 0, 0, 0, 0, 0, 0, 0xff, 0xff, 192, 168, 1, 7]
   \<and> ip (fill clientAddr_zero [0x20, 1, 0x0d, 0xb8, 0, 0, 0, 0, 0, 0, 0, 0, 0, 0, 0, 1] 5000)
     = [0x20, 1, 0x0d, 0xb8, 0, 0, 0, 0, 0, 0, 0, 0, 0, 0, 0, 1]
   \<and> port (fill clientAddr_zero [192, 168, 1, 7] 5000) = 5000"
  using fill_normalizes [of clientAddr_zero "[192, 168, 1, 7]" 5000]
        fill_normalizes [of clientAddr_zero
          "[0x20, 1, 0x0d, 0xb8, 0, 0, 0, 0, 0, 0, 0, 0, 0, 0, 0, 1]" 5000]
  by (simp add: clientAddr_zero_def IPv6len_def)

text \<open>
  Claim C4. For every 4-byte address \<open>a\<close>, the 16-byte address \<open>b\<close> that is its
  IPv4-in-IPv6-mapped form (the bytes \<open>00 .. 00 ff ff\<close>, then \<open>a\<close>) and every port
  \<open>p\<close>, the key built from \<open>(a, p)\<close> equals the key built from \<open>(b, p)\<close>.
\<close>

theorem PeerKey_mapped_eq:
  assumes "length a = 4" and "b = [0, 0, 0, 0, 0, 0, 0, 0, 0, 0, 0xff, 0xff] @ a"
  shows "PeerKey a p = PeerKey b p"
  using assms by (simp add: PeerKey_v4 PeerKey_v6 v4InV6Prefix_def)

theorem PeerKey_mapped_eq_witness:
  "PeerKey [127, 0, 0, 1] 5000
     = PeerKey [0, 0, 0, 0, 0, 0, 0, 0, 0, 0, 0xff, 0xff, 127, 0, 0, 1] 5000"
  using PeerKey_mapped_eq
          [of "[127, 0, 0, 1]" "[0, 0, 0, 0, 0, 0, 0, 0, 0, 0, 0xff, 0xff, 127, 0, 0, 1]" 5000]
  by simp

text \<open>
  Two keys built from addresses of 4 or 16 bytes are equal exactly when the ports
  are equal and the byte slices are equal or one is the IPv4-in-IPv6-mapped form of
  the other, that is, when they write the same address.
\<close>

lemma PeerKey_eq_cases:
  assumes "length a = 4 \<or> length a = 16" and "length b = 4 \<or> length b = 16"
  shows "PeerKey a p = PeerKey b q \<longleftrightarrow>
           p = q \<and> (if length a = length b then a = b
                    else if length a = 4
                      then b = [0, 0, 0, 0, 0, 0, 0, 0, 0, 0, 0xff, 0xff] @ a
                      else a = [0, 0, 0, 0, 0, 0, 0, 0, 0, 0, 0xff, 0xff] @ b)"
  using assms by (auto simp: PeerKey_v4 PeerKey_v6 v4InV6Prefix_def)

text \<open>
  Claim C5. A 4-byte slice and its mapped 16-byte form write one address (claim C4).
  For all pairs of an address (4 or 16 bytes) and a port that are distinct, by the
  port or by the address (the slices differ and neither is the mapped form of the
  other), the keys are distinct; and two keys are equal if and only if the ports and
  the normalized 16 address bytes are identical.
\<close>

theorem PeerKey_distinct:
  assumes "length a = 4 \<or> length a = 16" and "length b = 4 \<or> length b = 16"
  shows "(p \<noteq> q
          \<or> (a \<noteq> b \<and> b \<noteq> [0, 0, 0, 0, 0, 0, 0, 0, 0, 0, 0xff, 0xff] @ a
                    \<and> a \<noteq> [0, 0, 0, 0, 0, 0, 0, 0, 0, 0, 0xff, 0xff] @ b)
          \<longrightarrow> PeerKey a p \<noteq> PeerKey b q)
       \<and> (PeerKey a p = PeerKey b q \<longleftrightarrow>
            p = q
            \<and> (if length a = 4 then [0, 0, 0, 0, 0, 0, 0, 0, 0, 0, 0xff, 0xff] @ a else a)
              = (if length b = 4 then [0, 0, 0, 0, 0, 0, 0, 0, 0, 0, 0xff, 0xff] @ b else b))"
proof (intro conjI impI)
  assume d: "p \<noteq> q
          \<or> (a \<noteq> b \<and> b \<noteq> [0, 0, 0, 0, 0, 0, 0, 0, 0, 0, 0xff, 0xff] @ a
                    \<and> a \<noteq> [0, 0, 0, 0, 0, 0, 0, 0, 0, 0, 0xff, 0xff] @ b)"
  show "PeerKey a p \<noteq> PeerKey b q"
  proof
    assume "PeerKey a p = PeerKey b q"
    with PeerKey_eq_cases [OF assms, of p q]
    have "p = q" and "a = b \<or> b = [0, 0, 0, 0, 0, 0, 0, 0, 0, 0, 0xff, 0xff] @ a
                      \<or> a = [0, 0, 0, 0, 0, 0, 0, 0, 0, 0, 0xff, 0xff] @ b"
      by (auto split: if_splits)
    with d show False by blast
  qed
next
  show "PeerKey a p = PeerKey b q \<longleftrightarrow>
            p = q
            \<and> (if length a = 4 then [0, 0, 0, 0, 0, 0, 0, 0, 0, 0, 0xff, 0xff] @ a else a)
              = (if length b = 4 then [0, 0, 0, 0, 0, 0, 0, 0, 0, 0, 0xff, 0xff] @ b else b)"
    using assms by (auto simp: PeerKey_v4 PeerKey_v6 v4InV6Prefix_def)
qed

theorem PeerKey_distinct_witness:
  "PeerKey [127, 0, 0, 1] 5000 \<noteq> PeerKey [127, 0, 0, 1] 5001
   \<and> PeerKey [127, 0, 0, 1] 5000 \<noteq> PeerKey [127, 0, 0, 2] 5000
   \<and> PeerKey [127, 0, 0, 1] 5000
       \<noteq> PeerKey [0, 0, 0, 0, 0, 0, 0, 0, 0, 0, 0xff, 0xff, 127, 0, 0, 2] 5000
   \<and> PeerKey [0x20, 1, 0x0d, 0xb8, 0, 0, 0, 0, 0, 0, 0, 0, 0, 0, 0, 1] 5000
       \<noteq> PeerKey [0x20, 1, 0x0d, 0xb8, 0, 0, 0, 0, 0, 0, 0, 0, 0, 0, 0, 2] 5000"
  using PeerKey_distinct [of "[127, 0, 0, 1]" "[127, 0, 0, 1]" 5000 5001]
        PeerKey_distinct [of "[127, 0, 0, 1]" "[127, 0, 0, 2]" 5000 5000]
        PeerKey_distinct [of "[127, 0, 0, 1]"
          "[0, 0, 0, 0, 0, 0, 0, 0, 0, 0, 0xff, 0xff, 127, 0, 0, 2]" 5000 5000]
        PeerKey_distinct [of "[0x20, 1, 0x0d, 0xb8, 0, 0, 0, 0, 0, 0, 0, 0, 0, 0, 0, 1]"
          "[0x20, 1, 0x0d, 0xb8, 0, 0, 0, 0, 0, 0, 0, 0, 0, 0, 0, 2]" 5000 5000]
  by simp

subsection \<open>Properties of the registry\<close>

text \<open>
  Claim C6. In every registry and for every key: \<open>addClient\<close> binds the key to the
  new callback whatever was bound before and touches no other key, and a second
  \<open>addClient\<close> for the key replaces the first (the last write wins, the map holds one
  callback per key); \<open>removeClient\<close> unbinds the key and touches no other key, and
  changes nothing when the key is absent; \<open>addClient\<close> followed by \<open>removeClient\<close>
  for the same address leaves the registry without the entry and otherwise as it
  was.
\<close>

theorem registry_add_remove:
  "clients (addClient u a p cb) (PeerKey a p) = Some cb
   \<and> (\<forall>k. k \<noteq> PeerKey a p \<longrightarrow> clients (addClient u a p cb) k = clients u k)
   \<and> addClient (addClient u a p cb0) a p cb = addClient u a p cb
   \<and> clients (removeClient u a p) (PeerKey a p) = None
   \<and> (\<forall>k. k \<noteq> PeerKey a p \<longrightarrow> clients (removeClient u a p) k = clients u k)
   \<and> (clients u (PeerKey a p) = None \<longrightarrow> removeClient u a p = u)
   \<and> clients (removeClient (addClient u a p cb) a p) (PeerKey a p) = None
   \<and> (\<forall>k. k \<noteq> PeerKey a p \<longrightarrow>
         clients (removeClient (addClient u a p cb) a p) k = clients u k)"
  by (auto simp: addClient_def removeClient_def PeerKey_def Let_def fun_upd_idem)

theorem registry_add_remove_witness:
  "clients (addClient demo_listener [127, 0, 0, 1] 5001 log_payload)
        (PeerKey [127, 0, 0, 1] 5001) = Some log_payload
   \<and> clients (addClient demo_listener [127, 0, 0, 1] 5001 log_payload)
        (PeerKey [127, 0, 0, 1] 5002) = None
   \<and> addClient (addClient demo_listener [127, 0, 0, 1] 5001 panicking) [127, 0, 0, 1] 5001
         log_payload
       = addClient demo_listener [127, 0, 0, 1] 5001 log_payload
   \<and> removeClient demo_listener [127, 0, 0, 1] 5001 = demo_listener
   \<and> clients (removeClient (addClient demo_listener [127, 0, 0, 1] 5001 log_payload)
          [127, 0, 0, 1] 5001)
        (PeerKey [127, 0, 0, 1] 5001) = None"
proof -
  have absent: "clients demo_listener (PeerKey [127, 0, 0, 1] 5001) = None"
    by (simp add: demo_listener_def addClient_def PeerKey_def [symmetric] PeerKey_v4)
  have other: "PeerKey [127, 0, 0, 1] 5002 \<noteq> PeerKey [127, 0, 0, 1] 5001"
    by (simp add: PeerKey_v4)
  have none: "clients demo_listener (PeerKey [127, 0, 0, 1] 5002) = None"
    by (simp add: demo_listener_def addClient_def PeerKey_def [symmetric] PeerKey_v4)
  from registry_add_remove [of demo_listener "[127, 0, 0, 1]" 5001 log_payload panicking]
    absent other none
  show ?thesis by metis
qed

subsection \<open>Properties of the receive loop\<close>

lemma ReadFromUDP_zeroes:
  "ReadFromUDP d (replicate k 0)
     = (min (length (payload d)) k, sender d,
        take k (payload d) @ replicate (k - length (payload d)) 0)"
  by (simp add: ReadFromUDP_def copy_at_def min_def)

lemma step_Recv:
  assumes "run_at s = RunRead" and "\<not> sock_closed s"
  shows "step mx s (Recv d)
           = Some (s\<lparr>run_at := RunBody (min (length (payload d)) (mx + 1)) (sender d)
                      (take (mx + 1) (payload d) @ replicate (mx + 1 - length (payload d)) 0)\<rparr>)"
  using assms by (simp only: step.simps ReadFromUDP_zeroes) simp

lemma run_body_absent:
  assumes "clients (listener s) (PeerKey (IP addr) (Port addr)) = None"
  shows "run_body s n addr buf
           = s\<lparr>lookups := lookups s @ [PeerKey (IP addr) (Port addr)], run_at := RunRead\<rparr>"
  using assms by (simp add: run_body_def PeerKey_def Let_def)

lemma run_body_present:
  assumes "clients (listener s) (PeerKey (IP addr) (Port addr)) = Some cb"
  shows "run_body s n addr buf
           = (let s2 = s\<lparr>lookups := lookups s @ [PeerKey (IP addr) (Port addr)],
                          calls := calls s @ [(PeerKey (IP addr) (Port addr), take n buf)]\<rparr>
              in case cb (take n buf) (world s) of
                   Returned w \<Rightarrow> s2\<lparr>world := w, run_at := RunRead\<rparr>
                 | Panicked w \<Rightarrow> run_exit (s2\<lparr>world := w, panicked := True\<rparr>))"
  using assms by (simp add: run_body_def PeerKey_def Let_def)

text \<open>
  Claim C1. A read that succeeds while the loop waits in \<open>ReadFromUDP\<close> leaves the
  loop with \<open>n\<close>, the sender and a buffer of \<open>udpMaxPayloadSize + 1\<close> bytes whose first
  \<open>n\<close> bytes are the datagram's. The closure then derives the key from the sender's
  IP and port and looks it up. With no callback under the key the only change is
  that the loop is back at its read (and the lookup is on record): registry,
  callbacks' state and invocations are as before. With a callback under the key,
  it is invoked once, inside the step, on \<open>buf[:n]\<close>, and the loop is back at its
  read when the callback returns.
\<close>

theorem run_dispatches:
  "(run_at s = RunRead \<and> \<not> sock_closed s \<longrightarrow>
      (\<exists>buf. step mx s (Recv d)
                = Some (s\<lparr>run_at := RunBody (min (length (payload d)) (mx + 1)) (sender d) buf\<rparr>)
            \<and> length buf = mx + 1
            \<and> take (min (length (payload d)) (mx + 1)) buf = take (mx + 1) (payload d)))
   \<and> (run_at s = RunBody n addr buf \<longrightarrow>
        (case clients (listener s) (PeerKey (IP addr) (Port addr)) of
           None \<Rightarrow>
             step mx s Body
               = Some (s\<lparr>lookups := lookups s @ [PeerKey (IP addr) (Port addr)],
                         run_at := RunRead\<rparr>)
         | Some cb \<Rightarrow>
             (\<exists>s'. step mx s Body = Some s'
                \<and> lookups s' = lookups s @ [PeerKey (IP addr) (Port addr)]
                \<and> calls s' = calls s @ [(PeerKey (IP addr) (Port addr), take n buf)]
                \<and> clients (listener s') = clients (listener s)
                \<and> (case cb (take n buf) (world s) of
                      Returned w \<Rightarrow> world s' = w \<and> run_at s' = RunRead
                    | Panicked w \<Rightarrow> world s' = w \<and> run_at s' = RunExited))))"
proof (intro conjI impI)
  assume "run_at s = RunRead \<and> \<not> sock_closed s"
  then have st: "step mx s (Recv d)
           = Some (s\<lparr>run_at := RunBody (min (length (payload d)) (mx + 1)) (sender d)
                      (take (mx + 1) (payload d) @ replicate (mx + 1 - length (payload d)) 0)\<rparr>)"
    by (intro step_Recv) simp_all
  show "\<exists>buf. step mx s (Recv d)
                = Some (s\<lparr>run_at := RunBody (min (length (payload d)) (mx + 1)) (sender d) buf\<rparr>)
            \<and> length buf = mx + 1
            \<and> take (min (length (payload d)) (mx + 1)) buf = take (mx + 1) (payload d)"
  proof (intro exI conjI)
    show "step mx s (Recv d)
           = Some (s\<lparr>run_at := RunBody (min (length (payload d)) (mx + 1)) (sender d)
                      (take (mx + 1) (payload d) @ replicate (mx + 1 - length (payload d)) 0)\<rparr>)"
      by (rule st)
    show "length (take (mx + 1) (payload d) @ replicate (mx + 1 - length (payload d)) 0) = mx + 1"
      by simp
    show "take (min (length (payload d)) (mx + 1))
            (take (mx + 1) (payload d) @ replicate (mx + 1 - length (payload d)) 0)
          = take (mx + 1) (payload d)"
      by (simp add: min_def)
  qed
next
  assume at: "run_at s = RunBody n addr buf"
  show "case clients (listener s) (PeerKey (IP addr) (Port addr)) of
           None \<Rightarrow>
             step mx s Body
               = Some (s\<lparr>lookups := lookups s @ [PeerKey (IP addr) (Port addr)],
                         run_at := RunRead\<rparr>)
         | Some cb \<Rightarrow>
             (\<exists>s'. step mx s Body = Some s'
                \<and> lookups s' = lookups s @ [PeerKey (IP addr) (Port addr)]
                \<and> calls s' = calls s @ [(PeerKey (IP addr) (Port addr), take n buf)]
                \<and> clients (listener s') = clients (listener s)
                \<and> (case cb (take n buf) (world s) of
                      Returned w \<Rightarrow> world s' = w \<and> run_at s' = RunRead
                    | Panicked w \<Rightarrow> world s' = w \<and> run_at s' = RunExited))"
  proof (cases "clients (listener s) (PeerKey (IP addr) (Port addr))")
    case None
    with at show ?thesis by (simp add: run_body_absent)
  next
    case (Some cb)
    with at show ?thesis
      by (cases "cb (take n buf) (world s)") (simp_all add: run_body_present run_exit_def)
  qed
qed

lemma demo_registered: "clients demo_listener (PeerKey [127, 0, 0, 1] 5000) = Some log_payload"
  by (simp add: demo_listener_def addClient_def PeerKey_def)

lemma demo_unregistered: "prt \<noteq> 5000 \<Longrightarrow> clients demo_listener (PeerKey [127, 0, 0, 1] prt) = None"
  by (simp add: demo_listener_def addClient_def PeerKey_def [symmetric] PeerKey_v4)

theorem run_dispatches_witness:
  "(\<exists>buf. step 7 (started demo_listener []) (Recv (ping_from 5000))
             = Some ((started demo_listener [])
                       \<lparr>run_at := RunBody 4 \<lparr>IP = [127, 0, 0, 1], Port = 5000\<rparr> buf\<rparr>)
          \<and> length buf = 8 \<and> take 4 buf = ping)
   \<and> (\<exists>s'. step 7 ((started demo_listener [])
                       \<lparr>run_at := RunBody 4 \<lparr>IP = [127, 0, 0, 1], Port = 5000\<rparr>
                                    (ping @ [0, 0, 0, 0])\<rparr>) Body = Some s'
          \<and> calls s' = [(PeerKey [127, 0, 0, 1] 5000, ping)]
          \<and> world s' = [ping] \<and> run_at s' = RunRead)
   \<and> step 7 ((started demo_listener [])
                \<lparr>run_at := RunBody 4 \<lparr>IP = [127, 0, 0, 1], Port = 5001\<rparr>
                             (ping @ [0, 0, 0, 0])\<rparr>) Body
       = Some ((started demo_listener [])
                 \<lparr>lookups := [PeerKey [127, 0, 0, 1] 5001], run_at := RunRead\<rparr>)"
proof (intro conjI)
  show "\<exists>buf. step 7 (started demo_listener []) (Recv (ping_from 5000))
             = Some ((started demo_listener [])
                       \<lparr>run_at := RunBody 4 \<lparr>IP = [127, 0, 0, 1], Port = 5000\<rparr> buf\<rparr>)
          \<and> length buf = 8 \<and> take 4 buf = ping"
    using run_dispatches [of "started demo_listener []" 7 "ping_from 5000"]
    by (simp add: started_def ping_from_def ping_def eval_nat_numeral)
next
  show "\<exists>s'. step 7 ((started demo_listener [])
                       \<lparr>run_at := RunBody 4 \<lparr>IP = [127, 0, 0, 1], Port = 5000\<rparr>
                                    (ping @ [0, 0, 0, 0])\<rparr>) Body = Some s'
          \<and> calls s' = [(PeerKey [127, 0, 0, 1] 5000, ping)]
          \<and> world s' = [ping] \<and> run_at s' = RunRead"
    using run_dispatches [of "(started demo_listener [])
                       \<lparr>run_at := RunBody 4 \<lparr>IP = [127, 0, 0, 1], Port = 5000\<rparr>
                                    (ping @ [0, 0, 0, 0])\<rparr>" 7 _ 4
                 "\<lparr>IP = [127, 0, 0, 1], Port = 5000\<rparr>" "ping @ [0, 0, 0, 0]"]
    by (simp add: started_def demo_registered log_payload_def ping_def)
next
  show "step 7 ((started demo_listener [])
                \<lparr>run_at := RunBody 4 \<lparr>IP = [127, 0, 0, 1], Port = 5001\<rparr>
                             (ping @ [0, 0, 0, 0])\<rparr>) Body
       = Some ((started demo_listener [])
                 \<lparr>lookups := [PeerKey [127, 0, 0, 1] 5001], run_at := RunRead\<rparr>)"
    using run_dispatches [of "(started demo_listener [])
                       \<lparr>run_at := RunBody 4 \<lparr>IP = [127, 0, 0, 1], Port = 5001\<rparr>
                                    (ping @ [0, 0, 0, 0])\<rparr>" 7 _ 4
                 "\<lparr>IP = [127, 0, 0, 1], Port = 5001\<rparr>" "ping @ [0, 0, 0, 0]"]
    by (simp add: started_def demo_unregistered)
qed

subsection \<open>Properties of the shutdown\<close>

lemma addClient_done: "done_chan (addClient u a p cb) = done_chan u"
  by (simp add: addClient_def Let_def)

lemma removeClient_done: "done_chan (removeClient u a p) = done_chan u"
  by (simp add: removeClient_def Let_def)

lemma run_body_fields:
  "sock_closed (run_body s n addr buf) = sock_closed s"
  "close_at (run_body s n addr buf) = close_at s"
  by (simp_all add: run_body_def run_exit_def Let_def split: option.splits handled.splits)

lemma run_body_done:
  "done_chan (listener (run_body s n addr buf))
     = (if run_at (run_body s n addr buf) = RunExited
        then Suc (done_chan (listener s)) else done_chan (listener s))"
  by (simp add: run_body_def run_exit_def Let_def split: option.splits handled.splits)

lemma step_inv:
  assumes "rendezvous_inv s" and "step mx s e = Some s'"
  shows "rendezvous_inv s'"
proof (cases e)
  case (Recv d)
  with assms show ?thesis
    by (auto simp: rendezvous_inv_def ReadFromUDP_def split: if_splits)
next
  case ReadErr
  with assms show ?thesis
    by (auto simp: rendezvous_inv_def run_exit_def split: if_splits)
next
  case Body
  with assms obtain n addr buf where at: "run_at s = RunBody n addr buf"
    and s': "s' = run_body s n addr buf"
    by (auto split: run_pc.splits)
  from assms(1) at show ?thesis
    unfolding s' rendezvous_inv_def
    by (simp add: run_body_fields run_body_done)
next
  case SocketClose
  with assms show ?thesis
    by (auto simp: rendezvous_inv_def split: if_splits)
next
  case AwaitDone
  with assms show ?thesis
    by (auto simp: rendezvous_inv_def split: if_splits)
next
  case (AddClient a p cb)
  with assms show ?thesis
    by (auto simp: rendezvous_inv_def addClient_done)
next
  case (RemoveClient a p)
  with assms show ?thesis
    by (auto simp: rendezvous_inv_def removeClient_done)
qed

lemma exec_inv:
  "rendezvous_inv s \<Longrightarrow> exec mx s es = Some s' \<Longrightarrow> rendezvous_inv s'"
proof (induction es arbitrary: s)
  case Nil
  then show ?case by simp
next
  case (Cons e es)
  then show ?case
    by (auto split: option.splits dest: step_inv)
qed

lemma step_exited:
  assumes "run_at s = RunExited" and "step mx s e = Some s'"
  shows "run_at s' = RunExited \<and> lookups s' = lookups s \<and> calls s' = calls s
         \<and> world s' = world s \<and> done_chan (listener s') = done_chan (listener s)"
  using assms by (cases e) (auto simp: addClient_done removeClient_done split: if_splits)

lemma exec_exited:
  "run_at s = RunExited \<Longrightarrow> exec mx s es = Some s' \<Longrightarrow>
     run_at s' = RunExited \<and> lookups s' = lookups s \<and> calls s' = calls s
     \<and> world s' = world s \<and> done_chan (listener s') = done_chan (listener s)"
proof (induction es arbitrary: s)
  case Nil
  then show ?case by simp
next
  case (Cons e es)
  from Cons.prems obtain s1 where s1: "step mx s e = Some s1" and rest: "exec mx s1 es = Some s'"
    by (auto split: option.splits)
  from step_exited [OF Cons.prems(1) s1] Cons.IH [OF _ rest] show ?case
    by simp
qed

lemma started_inv: "done_chan u = 0 \<Longrightarrow> rendezvous_inv (started u w)"
  by (simp add: rendezvous_inv_def started_def)

text \<open>
  Claim C2. In every state the listener can reach from its start, under any
  interleaving of its steps: a read error ends the loop, and the loop's exit closes
  \<open>done\<close>; once the socket is closed no read succeeds (the library's part);
  \<open>done\<close> has been closed exactly once if the loop has ended (by a read error or
  by a panicking callback) and not at all before; \<open>close\<close> has closed the socket
  before it waits; and when \<open>close\<close> has returned, the loop has ended and, whatever
  happens afterwards, the loop looks up no key and invokes no callback.
\<close>

theorem close_waits_for_run:
  assumes "done_chan u = 0" and "exec mx (started u w) es = Some s"
  shows "(run_at s = RunRead \<longrightarrow>
            (\<exists>s1. step mx s ReadErr = Some s1 \<and> run_at s1 = RunExited
                  \<and> done_chan (listener s1) = 1))
       \<and> (sock_closed s \<longrightarrow> step mx s (Recv d) = None)
       \<and> done_chan (listener s) = (if run_at s = RunExited then 1 else 0)
       \<and> (close_at s \<noteq> CloseNotCalled \<longrightarrow> sock_closed s)
       \<and> (close_at s = CloseReturned \<longrightarrow>
            run_at s = RunExited
            \<and> (\<forall>es' s'. exec mx s es' = Some s' \<longrightarrow>
                  run_at s' = RunExited \<and> done_chan (listener s') = 1
                  \<and> lookups s' = lookups s \<and> calls s' = calls s \<and> world s' = world s))"
proof -
  have inv: "rendezvous_inv s"
    using started_inv [OF assms(1)] assms(2) by (rule exec_inv)
  have a: "run_at s = RunRead \<longrightarrow>
            (\<exists>s1. step mx s ReadErr = Some s1 \<and> run_at s1 = RunExited
                  \<and> done_chan (listener s1) = 1)"
    using inv by (simp add: rendezvous_inv_def run_exit_def)
  have b: "sock_closed s \<longrightarrow> step mx s (Recv d) = None"
    by simp
  have c: "done_chan (listener s) = (if run_at s = RunExited then 1 else 0)"
    using inv by (simp add: rendezvous_inv_def)
  have d: "close_at s \<noteq> CloseNotCalled \<longrightarrow> sock_closed s"
    using inv by (auto simp: rendezvous_inv_def)
  have e: "close_at s = CloseReturned \<longrightarrow>
            run_at s = RunExited
            \<and> (\<forall>es' s'. exec mx s es' = Some s' \<longrightarrow>
                  run_at s' = RunExited \<and> done_chan (listener s') = 1
                  \<and> lookups s' = lookups s \<and> calls s' = calls s \<and> world s' = world s)"
  proof
    assume "close_at s = CloseReturned"
    with inv have ex: "run_at s = RunExited" and one: "done_chan (listener s) = 1"
      by (auto simp: rendezvous_inv_def)
    from exec_exited [OF ex] one
    show "run_at s = RunExited
            \<and> (\<forall>es' s'. exec mx s es' = Some s' \<longrightarrow>
                  run_at s' = RunExited \<and> done_chan (listener s') = 1
                  \<and> lookups s' = lookups s \<and> calls s' = calls s \<and> world s' = world s)"
      using ex by auto
  qed
  from a b c d e show ?thesis by blast
qed

text \<open>
  The wait of \<open>close\<close> is never in vain: from every state in which it waits, at most
  three steps bring it back.
\<close>

lemma exec_step: "step mx s e = Some t \<Longrightarrow> exec mx s (e # es) = exec mx t es"
  by simp

lemma close_can_return:
  assumes "done_chan u = 0" and "exec mx (started u w) es = Some s"
    and "close_at s = CloseWaiting"
  shows "\<exists>es' s'. length es' \<le> 3 \<and> exec mx s es' = Some s' \<and> close_at s' = CloseReturned"
proof -
  have inv: "rendezvous_inv s"
    using started_inv [OF assms(1)] assms(2) by (rule exec_inv)
  have exited: "\<exists>s'. exec mx t [AwaitDone] = Some s' \<and> close_at s' = CloseReturned"
    if "rendezvous_inv t" "close_at t = CloseWaiting" "run_at t = RunExited" for t :: "'a machine"
    using that by (simp add: rendezvous_inv_def)
  have reading: "\<exists>s'. exec mx t [ReadErr, AwaitDone] = Some s' \<and> close_at s' = CloseReturned"
    if "rendezvous_inv t" "close_at t = CloseWaiting" "run_at t = RunRead" for t :: "'a machine"
    using that by (simp add: rendezvous_inv_def run_exit_def)
  show ?thesis
  proof (cases "run_at s")
    case RunRead
    from reading [OF inv assms(3) RunRead] show ?thesis
      by (intro exI [of _ "[ReadErr, AwaitDone]"]) simp
  next
    case RunExited
    from exited [OF inv assms(3) RunExited] show ?thesis
      by (intro exI [of _ "[AwaitDone]"]) simp
  next
    case (RunBody n addr buf)
    let ?t = "run_body s n addr buf"
    have st: "step mx s Body = Some ?t"
      using RunBody by simp
    have tinv: "rendezvous_inv ?t"
      using inv st by (rule step_inv)
    have tclose: "close_at ?t = CloseWaiting"
      using assms(3) by (simp add: run_body_fields)
    have "run_at ?t = RunRead \<or> run_at ?t = RunExited"
      by (simp add: run_body_def run_exit_def Let_def split: option.splits handled.splits)
    then show ?thesis
    proof
      assume r: "run_at ?t = RunRead"
      from reading [OF tinv tclose r] st show ?thesis
        by (intro exI [of _ "[Body, ReadErr, AwaitDone]"]) (simp only: exec_step, simp)
    next
      assume r: "run_at ?t = RunExited"
      from exited [OF tinv tclose r] st show ?thesis
        by (intro exI [of _ "[Body, AwaitDone]"]) (simp only: exec_step, simp)
    qed
  qed
qed

lemma demo_done: "done_chan demo_listener = 0"
  by (simp add: demo_listener_def addClient_def)

lemma demo_run:
  "\<exists>s. exec 7 (started demo_listener []) demo_trace = Some s
       \<and> close_at s = CloseReturned
       \<and> calls s = [(PeerKey [127, 0, 0, 1] 5000, ping)] \<and> world s = [ping]"
  by (simp add: demo_trace_def started_def ping_from_def ReadFromUDP_def copy_at_def
        run_body_def run_exit_def Let_def PeerKey_def [symmetric] demo_registered
        log_payload_def ping_def)

theorem close_waits_for_run_witness:
  "\<exists>s. exec 7 (started demo_listener []) demo_trace = Some s
       \<and> close_at s = CloseReturned \<and> sock_closed s
       \<and> run_at s = RunExited \<and> done_chan (listener s) = 1
       \<and> calls s = [(PeerKey [127, 0, 0, 1] 5000, ping)] \<and> world s = [ping]
       \<and> step 7 s (Recv (ping_from 5000)) = None
       \<and> (\<exists>s'. exec 7 s [RemoveClient [127, 0, 0, 1] 5000,
                          AddClient [127, 0, 0, 1] 5000 panicking] = Some s'
              \<and> calls s' = [(PeerKey [127, 0, 0, 1] 5000, ping)] \<and> world s' = [ping])"
proof -
  from demo_run obtain s where run: "exec 7 (started demo_listener []) demo_trace = Some s"
    and ret: "close_at s = CloseReturned"
    and obs: "calls s = [(PeerKey [127, 0, 0, 1] 5000, ping)]" "world s = [ping]"
    by blast
  note facts = close_waits_for_run [OF demo_done run, of "ping_from 5000"]
  from facts ret have closed: "sock_closed s" and ex: "run_at s = RunExited"
    and one: "done_chan (listener s) = 1" and no_read: "step 7 s (Recv (ping_from 5000)) = None"
    by auto
  obtain s' where later: "exec 7 s [RemoveClient [127, 0, 0, 1] 5000,
                          AddClient [127, 0, 0, 1] 5000 panicking] = Some s'"
    by simp
  from facts ret later have "calls s' = calls s \<and> world s' = world s"
    by blast
  with run ret closed ex one obs no_read later show ?thesis
    by auto
qed

subsection \<open>Properties of the multicast join\<close>

lemma multicast_flag: "(w AND FlagMulticast \<noteq> 0) = bit w 4" for w :: "64 word"
  by (simp add: FlagMulticast_def bit_iff_and_push_bit_not_eq_0)

lemma join_loop_success:
  "fst (join_loop L p lip intfs (b, s))
     \<longleftrightarrow> b \<or> (\<exists>i \<in> set intfs. bit (Flags i) 4 \<and> JoinGroup L p i lip = None)"
proof (induction intfs arbitrary: b s)
  case Nil
  then show ?case by simp
next
  case (Cons i intfs)
  show ?case
  proof (cases "bit (Flags i) 4")
    case True
    then show ?thesis
      by (cases "JoinGroup L p i lip") (simp_all add: multicast_flag Cons.IH)
  next
    case False
    then show ?thesis
      by (simp add: multicast_flag Cons.IH)
  qed
qed

lemma join_loop_memberships:
  "memberships (snd (join_loop L p lip intfs (b, s)))
     = memberships s
       @ map (\<lambda>i. (conn_id p, i, lip))
           (filter (\<lambda>i. bit (Flags i) 4 \<and> JoinGroup L p i lip = None) intfs)"
proof (induction intfs arbitrary: b s)
  case Nil
  then show ?case by simp
next
  case (Cons i intfs)
  show ?case
  proof (cases "bit (Flags i) 4")
    case True
    then show ?thesis
      by (cases "JoinGroup L p i lip") (simp_all add: multicast_flag Cons.IH)
  next
    case False
    then show ?thesis
      by (simp add: multicast_flag Cons.IH)
  qed
qed

lemma join_loop_frame:
  "opened (snd (join_loop L p lip intfs (b, s))) = opened s
   \<and> closed (snd (join_loop L p lip intfs (b, s))) = closed s
   \<and> readBuffers (snd (join_loop L p lip intfs (b, s))) = readBuffers s
   \<and> loops (snd (join_loop L p lip intfs (b, s))) = loops s"
  by (induction intfs arbitrary: b s) (simp_all split: option.splits)

lemma join_frame:
  "opened (snd (joinMulticastGroupOnAtLeastOneInterface L p lip s)) = opened s
   \<and> closed (snd (joinMulticastGroupOnAtLeastOneInterface L p lip s)) = closed s
   \<and> readBuffers (snd (joinMulticastGroupOnAtLeastOneInterface L p lip s)) = readBuffers s
   \<and> loops (snd (joinMulticastGroupOnAtLeastOneInterface L p lip s)) = loops s"
proof (cases "Interfaces L")
  case (Inl e)
  then show ?thesis by (simp add: joinMulticastGroupOnAtLeastOneInterface_def)
next
  case (Inr intfs)
  obtain b s' where r: "join_loop L p lip intfs (False, s) = (b, s')"
    by (cases "join_loop L p lip intfs (False, s)")
  from join_loop_frame [of L p lip intfs False s] r Inr show ?thesis
    by (simp add: joinMulticastGroupOnAtLeastOneInterface_def)
qed

text \<open>
  Claim C7. For every list of interfaces that \<open>net.Interfaces\<close> returns, the join
  returns no error exactly when some interface with the multicast flag accepted
  \<open>JoinGroup\<close>; in every other case, also when no interface has the flag, it returns
  the error of line 44.
\<close>

theorem join_needs_one_interface:
  assumes "Interfaces L = Inr intfs"
  shows "(fst (joinMulticastGroupOnAtLeastOneInterface L p lip s) = None
            \<longleftrightarrow> (\<exists>i \<in> set intfs. bit (Flags i) 4 \<and> JoinGroup L p i lip = None))
       \<and> (fst (joinMulticastGroupOnAtLeastOneInterface L p lip s) \<noteq> None \<longrightarrow>
            fst (joinMulticastGroupOnAtLeastOneInterface L p lip s)
              = Some (Errorf ''unable to activate multicast on any network interface''))
       \<and> (filter (\<lambda>i. bit (Flags i) 4) intfs = [] \<longrightarrow>
            fst (joinMulticastGroupOnAtLeastOneInterface L p lip s)
              = Some (Errorf ''unable to activate multicast on any network interface''))"
proof -
  obtain b s' where r: "join_loop L p lip intfs (False, s) = (b, s')"
    by (cases "join_loop L p lip intfs (False, s)")
  from join_loop_success [of L p lip intfs False s] r
  have b: "b \<longleftrightarrow> (\<exists>i \<in> set intfs. bit (Flags i) 4 \<and> JoinGroup L p i lip = None)"
    by simp
  have res: "fst (joinMulticastGroupOnAtLeastOneInterface L p lip s)
        = (if b then None
           else Some (Errorf ''unable to activate multicast on any network interface''))"
    using assms r by (simp add: joinMulticastGroupOnAtLeastOneInterface_def)
  have none: "filter (\<lambda>i. bit (Flags i) 4) intfs = [] \<longrightarrow> \<not> b"
    unfolding b by (auto simp: filter_empty_conv)
  from b res none show ?thesis
    by auto
qed

theorem join_needs_one_interface_witness:
  "fst (joinMulticastGroupOnAtLeastOneInterface demo_lib demo_conn [224, 1, 0, 1] sys_empty)
     = None
   \<and> fst (joinMulticastGroupOnAtLeastOneInterface all_refuse demo_conn [224, 1, 0, 1] sys_empty)
     = Some (Errorf ''unable to activate multicast on any network interface'')
   \<and> fst (joinMulticastGroupOnAtLeastOneInterface no_multicast demo_conn [224, 1, 0, 1] sys_empty)
     = Some (Errorf ''unable to activate multicast on any network interface'')"
proof -
  have flags: "\<not> bit (Flags lo) 4" "bit (Flags eth0) 4" "bit (Flags wlan0) 4"
    by (simp_all add: lo_def eth0_def wlan0_def bit_iff_odd_drop_bit drop_bit_eq_div)
  have i1: "Interfaces demo_lib = Inr [lo, eth0, wlan0]"
    and i2: "Interfaces all_refuse = Inr [lo, eth0, wlan0]"
    and i3: "Interfaces no_multicast = Inr [lo]"
    by (simp_all add: demo_lib_def all_refuse_def no_multicast_def)
  have j1: "JoinGroup demo_lib demo_conn eth0 [224, 1, 0, 1] = None"
    by (simp add: demo_lib_def eth0_def)
  have j2: "JoinGroup all_refuse demo_conn i [224, 1, 0, 1] \<noteq> None" for i
    by (simp add: all_refuse_def)
  note t1 = join_needs_one_interface [OF i1, of demo_conn "[224, 1, 0, 1]" sys_empty]
  note t2 = join_needs_one_interface [OF i2, of demo_conn "[224, 1, 0, 1]" sys_empty]
  note t3 = join_needs_one_interface [OF i3, of demo_conn "[224, 1, 0, 1]" sys_empty]
  have "\<exists>i \<in> set [lo, eth0, wlan0].
          bit (Flags i) 4 \<and> JoinGroup demo_lib demo_conn i [224, 1, 0, 1] = None"
    using flags(2) j1 by (intro bexI [of _ eth0]) simp_all
  with t1 have a: "fst (joinMulticastGroupOnAtLeastOneInterface demo_lib demo_conn [224, 1, 0, 1]
             sys_empty) = None"
    by blast
  have "\<not> (\<exists>i \<in> set [lo, eth0, wlan0].
          bit (Flags i) 4 \<and> JoinGroup all_refuse demo_conn i [224, 1, 0, 1] = None)"
    using j2 by blast
  with t2 have b: "fst (joinMulticastGroupOnAtLeastOneInterface all_refuse demo_conn [224, 1, 0, 1]
             sys_empty)
         = Some (Errorf ''unable to activate multicast on any network interface'')"
    by blast
  have "filter (\<lambda>i. bit (Flags i) 4) [lo] = []"
    using flags(1) by simp
  with t3 have c: "fst (joinMulticastGroupOnAtLeastOneInterface no_multicast demo_conn [224, 1, 0, 1]
             sys_empty)
         = Some (Errorf ''unable to activate multicast on any network interface'')"
    by blast
  from a b c show ?thesis by simp
qed

subsection \<open>Properties of the constructors\<close>

lemma join_frameD:
  assumes "joinMulticastGroupOnAtLeastOneInterface L p lip t = (r, t')"
  shows "opened t' = opened t \<and> closed t' = closed t
         \<and> readBuffers t' = readBuffers t \<and> loops t' = loops t"
  using join_frame [of L p lip t] assms by simp

lemma listen_socket_unicast:
  "listen_socket L listenPacket False address s
     = (case listenPacket (fst (restrictNetwork L ''udp'' address))
               (snd (restrictNetwork L ''udp'' address)) s of
          Inl err \<Rightarrow> (Err err, s)
        | Inr tmp \<Rightarrow>
            (if is_UDPConn tmp
             then Ok (tmp, IP (LocalAddr tmp)) else TypeAssertPanic,
             s\<lparr>opened := opened s @ [tmp]\<rparr>))"
  by (simp add: listen_socket_def Let_def split: prod.splits sum.splits)

lemma listen_socket_multicast:
  assumes "SplitHostPort L address = Inr (host, prt)"
    and "restrictNetwork L ''udp'' (''224.0.0.0:'' @ prt) = (nw, ad)"
    and "listenPacket nw ad s = Inr tmp"
  shows "listen_socket L listenPacket True address s
     = (case SetMulticastTTL L tmp (multicastTTL L) of
          Some err \<Rightarrow> (Err err, s\<lparr>opened := opened s @ [tmp]\<rparr>)
        | None \<Rightarrow>
            (case joinMulticastGroupOnAtLeastOneInterface L tmp (ParseIP L host)
                    (s\<lparr>opened := opened s @ [tmp]\<rparr>) of
               (Some err, s2) \<Rightarrow> (Err err, s2)
             | (None, s2) \<Rightarrow>
                 (if is_UDPConn tmp then Ok (tmp, ParseIP L host) else TypeAssertPanic, s2)))"
  using assms by (simp add: listen_socket_def Let_def split: prod.splits option.splits)

lemma listen_socket_frame:
  assumes "listen_socket L listenPacket multicast address s = (r, s')"
  shows "closed s' = closed s \<and> readBuffers s' = readBuffers s \<and> loops s' = loops s
         \<and> (opened s' = opened s \<or> (\<exists>tmp. opened s' = opened s @ [tmp]))"
proof (cases multicast)
  case False
  with assms show ?thesis
    by (auto simp: listen_socket_unicast split: sum.splits)
next
  case True
  show ?thesis
  proof (cases "SplitHostPort L address")
    case (Inl err)
    with assms True show ?thesis
      by (simp add: listen_socket_def)
  next
    case (Inr hp)
    obtain host prt where hp: "hp = (host, prt)" by (cases hp)
    obtain nw ad where rn: "restrictNetwork L ''udp'' (''224.0.0.0:'' @ prt) = (nw, ad)"
      by (cases "restrictNetwork L ''udp'' (''224.0.0.0:'' @ prt)")
    show ?thesis
    proof (cases "listenPacket nw ad s")
      case (Inl err)
      with assms True Inr hp rn show ?thesis
        by (simp add: listen_socket_def)
    next
      case (Inr tmp)
      note eq = listen_socket_multicast [where listenPacket = listenPacket and s = s,
        OF \<open>SplitHostPort L address = Inr hp\<close> [unfolded hp] rn Inr]
      from assms True show ?thesis
        by (auto simp: eq split: option.splits prod.splits dest!: join_frameD)
    qed
  qed
qed

lemma listen_socket_Ok:
  assumes "listen_socket L listenPacket multicast address s = (Ok (c, lip), s1)"
  shows "opened s1 = opened s @ [c] \<and> closed s1 = closed s
         \<and> readBuffers s1 = readBuffers s \<and> loops s1 = loops s \<and> is_UDPConn c"
proof (cases multicast)
  case False
  with assms show ?thesis
    by (auto simp: listen_socket_unicast split: sum.splits if_splits)
next
  case True
  show ?thesis
  proof (cases "SplitHostPort L address")
    case (Inl err)
    with assms True show ?thesis
      by (simp add: listen_socket_def)
  next
    case (Inr hp)
    obtain host prt where hp: "hp = (host, prt)" by (cases hp)
    obtain nw ad where rn: "restrictNetwork L ''udp'' (''224.0.0.0:'' @ prt) = (nw, ad)"
      by (cases "restrictNetwork L ''udp'' (''224.0.0.0:'' @ prt)")
    show ?thesis
    proof (cases "listenPacket nw ad s")
      case (Inl err)
      with assms True Inr hp rn show ?thesis
        by (simp add: listen_socket_def)
    next
      case (Inr tmp)
      note eq = listen_socket_multicast [where listenPacket = listenPacket and s = s,
        OF \<open>SplitHostPort L address = Inr hp\<close> [unfolded hp] rn Inr]
      from assms True show ?thesis
        by (auto simp: eq split: option.splits prod.splits if_splits dest!: join_frameD)
    qed
  qed
qed

lemma newServerUDPListener_Ok_socket:
  assumes "listen_socket L listenPacket multicast address s = (Ok (c, lip), s1)"
  shows "(newServerUDPListener L listenPacket wt multicast address s
            :: 'h serverUDPListener result \<times> sys)
     = (case SetReadBuffer L c (udpKernelReadBufferSize L) of
          Some err \<Rightarrow>
            (Err err,
             s1\<lparr>readBuffers := readBuffers s1 @ [(conn_id c, udpKernelReadBufferSize L)]\<rparr>)
        | None \<Rightarrow>
            (Ok \<lparr>pc = c, listenIP = lip, writeTimeout = wt,
                 clients = Map.empty, done_chan = 0\<rparr>,
             s1\<lparr>readBuffers := readBuffers s1 @ [(conn_id c, udpKernelReadBufferSize L)],
                loops := loops s1 @ [conn_id c]\<rparr>))"
  using assms by (simp add: newServerUDPListener_def Let_def split: option.splits)

text \<open>
  Claim C9. On the unicast and on the multicast path alike, once the socket stands,
  the constructor asks for a receive buffer of \<open>udpKernelReadBufferSize\<close> bytes; if
  the request fails, the constructor returns that error, no listener, and starts no
  receive loop. Whatever the path, a listener is returned only with the request
  granted on its socket, and only then is a loop started.
\<close>

theorem read_buffer_is_mandatory:
  "(listen_socket L listenPacket multicast address s = (Ok (c, lip), s1)
      \<and> SetReadBuffer L c (udpKernelReadBufferSize L) = Some err \<longrightarrow>
      (newServerUDPListener L listenPacket wt multicast address s
         :: 'h serverUDPListener result \<times> sys)
        = (Err err,
           s1\<lparr>readBuffers := readBuffers s1 @ [(conn_id c, udpKernelReadBufferSize L)]\<rparr>)
      \<and> loops s1 = loops s)
   \<and> ((newServerUDPListener L listenPacket wt multicast address s
         :: 'h serverUDPListener result \<times> sys) = (r, s') \<longrightarrow>
       (case r of
          Ok u \<Rightarrow>
            SetReadBuffer L (pc u) (udpKernelReadBufferSize L) = None
            \<and> readBuffers s' = readBuffers s @ [(conn_id (pc u), udpKernelReadBufferSize L)]
            \<and> loops s' = loops s @ [conn_id (pc u)]
        | _ \<Rightarrow> loops s' = loops s))"
proof (intro conjI impI)
  assume a: "listen_socket L listenPacket multicast address s = (Ok (c, lip), s1)
      \<and> SetReadBuffer L c (udpKernelReadBufferSize L) = Some err"
  then show "(newServerUDPListener L listenPacket wt multicast address s
         :: 'h serverUDPListener result \<times> sys)
        = (Err err,
           s1\<lparr>readBuffers := readBuffers s1 @ [(conn_id c, udpKernelReadBufferSize L)]\<rparr>)"
    by (simp add: newServerUDPListener_Ok_socket)
  from a listen_socket_Ok [of L listenPacket multicast address s c lip s1]
  show "loops s1 = loops s" by simp
next
  assume n: "(newServerUDPListener L listenPacket wt multicast address s
         :: 'h serverUDPListener result \<times> sys) = (r, s')"
  obtain q s1 where ls: "listen_socket L listenPacket multicast address s = (q, s1)"
    by (cases "listen_socket L listenPacket multicast address s")
  note fr = listen_socket_frame [OF ls]
  show "case r of
          Ok u \<Rightarrow>
            SetReadBuffer L (pc u) (udpKernelReadBufferSize L) = None
            \<and> readBuffers s' = readBuffers s @ [(conn_id (pc u), udpKernelReadBufferSize L)]
            \<and> loops s' = loops s @ [conn_id (pc u)]
        | _ \<Rightarrow> loops s' = loops s"
  proof (cases q)
    case (Ok cl)
    obtain c lip where cl: "cl = (c, lip)" by (cases cl)
    from n fr show ?thesis
      unfolding newServerUDPListener_Ok_socket [OF ls [unfolded Ok cl]]
      by (auto split: option.splits)
  next
    case (Err e)
    with n ls fr show ?thesis
      by (auto simp: newServerUDPListener_def)
  next
    case TypeAssertPanic
    with n ls fr show ?thesis
      by (auto simp: newServerUDPListener_def)
  qed
qed

lemma listen_unicast_demo:
  "SetMulticastTTL L = SetMulticastTTL demo_lib \<Longrightarrow> restrictNetwork L = restrictNetwork demo_lib \<Longrightarrow>
   listen_socket L demo_factory False ''127.0.0.1:8000'' sys_empty
     = (Ok (conn1, [0, 0, 0, 0]), sys_empty\<lparr>opened := [conn1]\<rparr>)"
  by (simp add: listen_socket_unicast demo_lib_def demo_factory_def sys_empty_def conn1_def)

lemma listen_multicast_demo:
  "listen_socket (buffer_denied i) demo_factory True ''224.1.0.1:5000'' sys_empty
     = (Ok (conn1, group_ip),
        sys_empty\<lparr>opened := [conn1], memberships := [(1, eth0, group_ip)]\<rparr>)"
  by (simp add: listen_socket_def joinMulticastGroupOnAtLeastOneInterface_def
        buffer_denied_def demo_lib_def demo_factory_def sys_empty_def conn1_def group_ip_def
        lo_def eth0_def wlan0_def multicast_flag Let_def)

theorem read_buffer_is_mandatory_witness:
  "(newServerUDPListener (buffer_denied 1) demo_factory 10 False ''127.0.0.1:8000'' sys_empty
       :: demo_result)
     = (Err (LibError ''setsockopt: operation not permitted''),
        sys_empty\<lparr>opened := [conn1], readBuffers := [(1, 0x80000)]\<rparr>)
   \<and> (newServerUDPListener (buffer_denied 1) demo_factory 10 True ''224.1.0.1:5000'' sys_empty
       :: demo_result)
     = (Err (LibError ''setsockopt: operation not permitted''),
        sys_empty\<lparr>opened := [conn1], memberships := [(1, eth0, group_ip)],
                  readBuffers := [(1, 0x80000)]\<rparr>)
   \<and> (\<exists>u s'. (newServerUDPListener demo_lib demo_factory 10 False ''127.0.0.1:8000'' sys_empty
             :: demo_result) = (Ok u, s')
         \<and> pc u = conn1 \<and> readBuffers s' = [(1, 0x80000)] \<and> loops s' = [1])"
proof -
  have u: "listen_socket (buffer_denied 1) demo_factory False ''127.0.0.1:8000'' sys_empty
     = (Ok (conn1, [0, 0, 0, 0]), sys_empty\<lparr>opened := [conn1]\<rparr>)"
    by (rule listen_unicast_demo) (simp_all add: buffer_denied_def)
  have denied: "SetReadBuffer (buffer_denied 1) conn1 (udpKernelReadBufferSize (buffer_denied 1))
      = Some (LibError ''setsockopt: operation not permitted'')"
    by (simp add: buffer_denied_def conn1_def)
  have size: "udpKernelReadBufferSize (buffer_denied i) = 0x80000" for i
    by (simp add: buffer_denied_def demo_lib_def)
  from read_buffer_is_mandatory [of "buffer_denied 1" demo_factory False "''127.0.0.1:8000''"
      sys_empty conn1 "[0, 0, 0, 0]" "sys_empty\<lparr>opened := [conn1]\<rparr>"
      "LibError ''setsockopt: operation not permitted''" 10, THEN conjunct1]
    u denied
  have a: "(newServerUDPListener (buffer_denied 1) demo_factory 10 False ''127.0.0.1:8000'' sys_empty
       :: demo_result)
     = (Err (LibError ''setsockopt: operation not permitted''),
        sys_empty\<lparr>opened := [conn1], readBuffers := [(1, 0x80000)]\<rparr>)"
    by (simp add: size conn1_def sys_empty_def)
  from read_buffer_is_mandatory [of "buffer_denied 1" demo_factory True "''224.1.0.1:5000''"
      sys_empty conn1 group_ip
      "sys_empty\<lparr>opened := [conn1], memberships := [(1, eth0, group_ip)]\<rparr>"
      "LibError ''setsockopt: operation not permitted''" 10, THEN conjunct1]
    listen_multicast_demo [of 1] denied
  have b: "(newServerUDPListener (buffer_denied 1) demo_factory 10 True ''224.1.0.1:5000'' sys_empty
       :: demo_result)
     = (Err (LibError ''setsockopt: operation not permitted''),
        sys_empty\<lparr>opened := [conn1], memberships := [(1, eth0, group_ip)],
                  readBuffers := [(1, 0x80000)]\<rparr>)"
    by (simp add: size conn1_def sys_empty_def)
  have "listen_socket demo_lib demo_factory False ''127.0.0.1:8000'' sys_empty
     = (Ok (conn1, [0, 0, 0, 0]), sys_empty\<lparr>opened := [conn1]\<rparr>)"
    by (rule listen_unicast_demo) simp_all
  then obtain u s' where ok: "(newServerUDPListener demo_lib demo_factory 10 False
      ''127.0.0.1:8000'' sys_empty :: demo_result) = (Ok u, s')" and u: "pc u = conn1"
    by (simp add: newServerUDPListener_Ok_socket demo_lib_def)
  from read_buffer_is_mandatory [where L = demo_lib and listenPacket = demo_factory
      and multicast = False and address = "''127.0.0.1:8000''" and s = sys_empty and wt = 10
      and r = "Ok u" and s' = s', THEN conjunct2] ok u
  have c: "readBuffers s' = [(1, 0x80000)] \<and> loops s' = [1]"
    by (simp add: sys_empty_def conn1_def demo_lib_def)
  from a b c ok u show ?thesis by blast
qed

lemma leaked_opened:
  assumes "opened s' = opened s @ [tmp]" and "closed s' = closed s"
    and "conn_id tmp \<notin> set (closed s)"
  shows "leaked s' = leaked s @ [conn_id tmp]"
  using assms by (simp add: leaked_def)

text \<open>
  Claim C10. When the socket has been opened and a later step fails (the multicast
  TTL, the group join, or the receive buffer), the constructor returns the error
  and the state holds the new socket among the opened ones and no new closed one:
  the handle is leaked.
\<close>

theorem failed_construction_leaks_socket:
  "(SplitHostPort L address = Inr (host, prt)
      \<and> restrictNetwork L ''udp'' (''224.0.0.0:'' @ prt) = (nw, ad)
      \<and> listenPacket nw ad s = Inr tmp
      \<and> SetMulticastTTL L tmp (multicastTTL L) = Some err \<longrightarrow>
      (newServerUDPListener L listenPacket wt True address s
         :: 'h serverUDPListener result \<times> sys)
        = (Err err, s\<lparr>opened := opened s @ [tmp]\<rparr>))
   \<and> (SplitHostPort L address = Inr (host, prt)
      \<and> restrictNetwork L ''udp'' (''224.0.0.0:'' @ prt) = (nw, ad)
      \<and> listenPacket nw ad s = Inr tmp
      \<and> SetMulticastTTL L tmp (multicastTTL L) = None
      \<and> fst (joinMulticastGroupOnAtLeastOneInterface L tmp (ParseIP L host)
                (s\<lparr>opened := opened s @ [tmp]\<rparr>)) = Some err \<longrightarrow>
      (\<exists>s'. (newServerUDPListener L listenPacket wt True address s
                :: 'h serverUDPListener result \<times> sys) = (Err err, s')
            \<and> opened s' = opened s @ [tmp] \<and> closed s' = closed s \<and> loops s' = loops s))
   \<and> (listen_socket L listenPacket multicast address s = (Ok (c, lip), s1)
      \<and> SetReadBuffer L c (udpKernelReadBufferSize L) = Some err \<longrightarrow>
      (\<exists>s'. (newServerUDPListener L listenPacket wt multicast address s
                :: 'h serverUDPListener result \<times> sys) = (Err err, s')
            \<and> opened s' = opened s @ [c] \<and> closed s' = closed s \<and> loops s' = loops s))
   \<and> (opened s' = opened s @ [tmp] \<and> closed s' = closed s
      \<and> conn_id tmp \<notin> set (closed s) \<longrightarrow>
      leaked s' = leaked s @ [conn_id tmp])"
proof (intro conjI impI)
  assume a: "SplitHostPort L address = Inr (host, prt)
      \<and> restrictNetwork L ''udp'' (''224.0.0.0:'' @ prt) = (nw, ad)
      \<and> listenPacket nw ad s = Inr tmp
      \<and> SetMulticastTTL L tmp (multicastTTL L) = Some err"
  then have "listen_socket L listenPacket True address s
               = (Err err, s\<lparr>opened := opened s @ [tmp]\<rparr>)"
    by (simp add: listen_socket_multicast [where listenPacket = listenPacket and s = s])
  then show "(newServerUDPListener L listenPacket wt True address s
         :: 'h serverUDPListener result \<times> sys)
        = (Err err, s\<lparr>opened := opened s @ [tmp]\<rparr>)"
    by (simp add: newServerUDPListener_def)
next
  assume a: "SplitHostPort L address = Inr (host, prt)
      \<and> restrictNetwork L ''udp'' (''224.0.0.0:'' @ prt) = (nw, ad)
      \<and> listenPacket nw ad s = Inr tmp
      \<and> SetMulticastTTL L tmp (multicastTTL L) = None
      \<and> fst (joinMulticastGroupOnAtLeastOneInterface L tmp (ParseIP L host)
                (s\<lparr>opened := opened s @ [tmp]\<rparr>)) = Some err"
  obtain s2 where j: "joinMulticastGroupOnAtLeastOneInterface L tmp (ParseIP L host)
                (s\<lparr>opened := opened s @ [tmp]\<rparr>) = (Some err, s2)"
    using a by (cases "joinMulticastGroupOnAtLeastOneInterface L tmp (ParseIP L host)
                (s\<lparr>opened := opened s @ [tmp]\<rparr>)") simp
  from a j have "listen_socket L listenPacket True address s = (Err err, s2)"
    by (simp add: listen_socket_multicast [where listenPacket = listenPacket and s = s])
  then have "(newServerUDPListener L listenPacket wt True address s
         :: 'h serverUDPListener result \<times> sys) = (Err err, s2)"
    by (simp add: newServerUDPListener_def)
  with join_frameD [OF j]
  show "\<exists>s'. (newServerUDPListener L listenPacket wt True address s
                :: 'h serverUDPListener result \<times> sys) = (Err err, s')
            \<and> opened s' = opened s @ [tmp] \<and> closed s' = closed s \<and> loops s' = loops s"
    by simp
next
  assume a: "listen_socket L listenPacket multicast address s = (Ok (c, lip), s1)
      \<and> SetReadBuffer L c (udpKernelReadBufferSize L) = Some err"
  with listen_socket_Ok [of L listenPacket multicast address s c lip s1]
  show "\<exists>s'. (newServerUDPListener L listenPacket wt multicast address s
                :: 'h serverUDPListener result \<times> sys) = (Err err, s')
            \<and> opened s' = opened s @ [c] \<and> closed s' = closed s \<and> loops s' = loops s"
    by (simp add: newServerUDPListener_Ok_socket)
next
  assume "opened s' = opened s @ [tmp] \<and> closed s' = closed s
      \<and> conn_id tmp \<notin> set (closed s)"
  then show "leaked s' = leaked s @ [conn_id tmp]"
    by (simp add: leaked_opened)
qed

theorem failed_construction_leaks_socket_witness:
  "(\<exists>s'. (newServerUDPListener ttl_denied demo_factory 10 True ''224.1.0.1:5000'' sys_empty
            :: demo_result) = (Err (LibError ''setsockopt: invalid argument''), s')
        \<and> opened s' = [conn1] \<and> closed s' = [] \<and> leaked s' = [1])
   \<and> (\<exists>s'. (newServerUDPListener no_multicast demo_factory 10 True ''224.1.0.1:5000'' sys_empty
            :: demo_result)
          = (Err (Errorf ''unable to activate multicast on any network interface''), s')
        \<and> opened s' = [conn1] \<and> closed s' = [] \<and> leaked s' = [1])
   \<and> (\<exists>s'. (newServerUDPListener (buffer_denied 1) demo_factory 10 False ''127.0.0.1:8000''
            sys_empty :: demo_result)
          = (Err (LibError ''setsockopt: operation not permitted''), s')
        \<and> opened s' = [conn1] \<and> closed s' = [] \<and> leaked s' = [1])"
proof -
  have sp: "SplitHostPort L ''224.1.0.1:5000'' = Inr (''224.1.0.1'', ''5000'')"
    if "SplitHostPort L = SplitHostPort demo_lib" for L
    using that by (simp add: demo_lib_def)
  have rn: "restrictNetwork L ''udp'' (''224.0.0.0:'' @ ''5000'') = (''udp4'', ''224.0.0.0:5000'')"
    if "restrictNetwork L = restrictNetwork demo_lib" for L
    using that by (simp add: demo_lib_def)
  have lp: "demo_factory ''udp4'' ''224.0.0.0:5000'' sys_empty = Inr conn1"
    by (simp add: demo_factory_def sys_empty_def conn1_def)
  have fresh: "conn_id conn1 \<notin> set (closed sys_empty)" and none: "leaked sys_empty = []"
    and id: "conn_id conn1 = 1" and op: "opened sys_empty @ [conn1] = [conn1]"
    and cl: "closed sys_empty = []"
    by (simp_all add: sys_empty_def leaked_def conn1_def)
  note t = failed_construction_leaks_socket
  have fin: "\<exists>s'. R s' \<and> opened s' = [conn1] \<and> closed s' = [] \<and> leaked s' = [1]"
    if "\<exists>s'. R s' \<and> opened s' = opened sys_empty @ [conn1] \<and> closed s' = closed sys_empty
              \<and> loops s' = loops sys_empty" for R
  proof -
    from that obtain s' where r: "R s'" and o: "opened s' = opened sys_empty @ [conn1]"
      and c: "closed s' = closed sys_empty"
      by blast
    from t [where s = sys_empty and tmp = conn1 and s' = s',
          THEN conjunct2, THEN conjunct2, THEN conjunct2] o c fresh none
    have "leaked s' = [conn_id conn1]"
      by simp
    with r o c show ?thesis
      by (auto simp: op cl id)
  qed
  have ttl: "SetMulticastTTL ttl_denied conn1 (multicastTTL ttl_denied)
               = Some (LibError ''setsockopt: invalid argument'')"
    by (simp add: ttl_denied_def)
  from t [where L = ttl_denied and address = "''224.1.0.1:5000''" and host = "''224.1.0.1''"
            and prt = "''5000''" and nw = "''udp4''" and ad = "''224.0.0.0:5000''"
            and listenPacket = demo_factory and s = sys_empty and tmp = conn1
            and err = "LibError ''setsockopt: invalid argument''" and wt = 10,
          THEN conjunct1]
    sp [of ttl_denied] rn [of ttl_denied] lp ttl
  have "(newServerUDPListener ttl_denied demo_factory 10 True ''224.1.0.1:5000'' sys_empty
            :: demo_result)
          = (Err (LibError ''setsockopt: invalid argument''),
             sys_empty\<lparr>opened := opened sys_empty @ [conn1]\<rparr>)"
    by (simp add: ttl_denied_def)
  then have a: "\<exists>s'. (newServerUDPListener ttl_denied demo_factory 10 True
        ''224.1.0.1:5000'' sys_empty :: demo_result)
          = (Err (LibError ''setsockopt: invalid argument''), s')
        \<and> opened s' = [conn1] \<and> closed s' = [] \<and> leaked s' = [1]"
    by (intro fin) simp
  have ttl_ok: "SetMulticastTTL no_multicast conn1 (multicastTTL no_multicast) = None"
    by (simp add: no_multicast_def demo_lib_def)
  have join: "fst (joinMulticastGroupOnAtLeastOneInterface no_multicast conn1
                (ParseIP no_multicast ''224.1.0.1'') (sys_empty\<lparr>opened := opened sys_empty @ [conn1]\<rparr>))
      = Some (Errorf ''unable to activate multicast on any network interface'')"
    by (simp add: joinMulticastGroupOnAtLeastOneInterface_def no_multicast_def lo_def
          multicast_flag bit_iff_odd_drop_bit drop_bit_eq_div)
  from t [where L = no_multicast and address = "''224.1.0.1:5000''" and host = "''224.1.0.1''"
            and prt = "''5000''" and nw = "''udp4''" and ad = "''224.0.0.0:5000''"
            and listenPacket = demo_factory and s = sys_empty and tmp = conn1
            and err = "Errorf ''unable to activate multicast on any network interface''"
            and wt = 10,
          THEN conjunct2, THEN conjunct1]
    sp [of no_multicast] rn [of no_multicast] lp ttl_ok join
  have "\<exists>s'. (newServerUDPListener no_multicast demo_factory 10 True ''224.1.0.1:5000'' sys_empty
            :: demo_result)
          = (Err (Errorf ''unable to activate multicast on any network interface''), s')
        \<and> opened s' = opened sys_empty @ [conn1] \<and> closed s' = closed sys_empty
        \<and> loops s' = loops sys_empty"
    by (simp add: no_multicast_def)
  then have b: "\<exists>s'. (newServerUDPListener no_multicast demo_factory 10 True ''224.1.0.1:5000''
        sys_empty :: demo_result)
          = (Err (Errorf ''unable to activate multicast on any network interface''), s')
        \<and> opened s' = [conn1] \<and> closed s' = [] \<and> leaked s' = [1]"
    by (rule fin)
  have u: "listen_socket (buffer_denied 1) demo_factory False ''127.0.0.1:8000'' sys_empty
     = (Ok (conn1, [0, 0, 0, 0]), sys_empty\<lparr>opened := [conn1]\<rparr>)"
    by (rule listen_unicast_demo) (simp_all add: buffer_denied_def)
  have denied: "SetReadBuffer (buffer_denied 1) conn1 (udpKernelReadBufferSize (buffer_denied 1))
      = Some (LibError ''setsockopt: operation not permitted'')"
    by (simp add: buffer_denied_def conn1_def)
  from t [where L = "buffer_denied 1" and listenPacket = demo_factory and multicast = False
            and address = "''127.0.0.1:8000''" and s = sys_empty and c = conn1
            and lip = "[0, 0, 0, 0]" and ?s1.0 = "sys_empty\<lparr>opened := [conn1]\<rparr>"
            and err = "LibError ''setsockopt: operation not permitted''" and wt = 10,
          THEN conjunct2, THEN conjunct2, THEN conjunct1]
    u denied
  have "\<exists>s'. (newServerUDPListener (buffer_denied 1) demo_factory 10 False ''127.0.0.1:8000''
            sys_empty :: demo_result)
          = (Err (LibError ''setsockopt: operation not permitted''), s')
        \<and> opened s' = opened sys_empty @ [conn1] \<and> closed s' = closed sys_empty
        \<and> loops s' = loops sys_empty"
    by simp
  then have c: "\<exists>s'. (newServerUDPListener (buffer_denied 1) demo_factory 10 False
        ''127.0.0.1:8000'' sys_empty :: demo_result)
          = (Err (LibError ''setsockopt: operation not permitted''), s')
        \<and> opened s' = [conn1] \<and> closed s' = [] \<and> leaked s' = [1]"
    by (rule fin)
  from a b c show ?thesis by blast
qed

lemma newServerUDPListener_frame:
  assumes "(newServerUDPListener L listenPacket wt multicast address s
              :: 'h serverUDPListener result \<times> sys) = (r, s')"
  shows "closed s' = closed s
         \<and> (case r of Ok u \<Rightarrow> opened s' = opened s @ [pc u]
             | _ \<Rightarrow> opened s' = opened s \<or> (\<exists>tmp. opened s' = opened s @ [tmp]))"
proof -
  obtain q s1 where ls: "listen_socket L listenPacket multicast address s = (q, s1)"
    by (cases "listen_socket L listenPacket multicast address s")
  note fr = listen_socket_frame [OF ls]
  show ?thesis
  proof (cases q)
    case (Ok cl)
    obtain c lip where cl: "cl = (c, lip)" by (cases cl)
    from assms fr listen_socket_Ok [OF ls [unfolded Ok cl]] show ?thesis
      unfolding newServerUDPListener_Ok_socket [OF ls [unfolded Ok cl]]
      by (auto split: option.splits)
  next
    case (Err e)
    with assms ls fr show ?thesis
      by (auto simp: newServerUDPListener_def)
  next
    case TypeAssertPanic
    with assms ls fr show ?thesis
      by (auto simp: newServerUDPListener_def)
  qed
qed

lemma pair_closes_rtp:
  fixes rtpl :: "'h serverUDPListener"
  assumes "newServerUDPListener L listenPacket wt True
             (JoinHostPort L (IP_String L a) (FormatInt L rtp 10)) s = (Ok rtpl, s1)"
    and "(newServerUDPListener L listenPacket wt True
             (JoinHostPort L (IP_String L a) (FormatInt L rtcp 10)) s1
           :: 'h serverUDPListener result \<times> sys) = (Err err, s2)"
  shows "(newServerUDPListenerMulticastPair L listenPacket wt rtp rtcp a s
           :: ('h serverUDPListener \<times> 'h serverUDPListener) result \<times> sys)
           = (Err err, close rtpl s2)"
    and "conn_id (pc rtpl) \<in> set (closed (close rtpl s2))"
    and "conn_id (pc rtpl) \<notin> set (loops (close rtpl s2))"
    and "conn_id (pc rtpl) \<notin> set (leaked (close rtpl s2))"
    and "opened s2 = opened s1 \<Longrightarrow> conn_id (pc rtpl) \<notin> conn_id ` set (opened s) \<Longrightarrow>
           leaked (close rtpl s2) = leaked s"
proof -
  show "(newServerUDPListenerMulticastPair L listenPacket wt rtp rtcp a s
           :: ('h serverUDPListener \<times> 'h serverUDPListener) result \<times> sys)
           = (Err err, close rtpl s2)"
    using assms by (simp add: newServerUDPListenerMulticastPair_def)
  show "conn_id (pc rtpl) \<in> set (closed (close rtpl s2))"
    by (simp add: close_def)
  show "conn_id (pc rtpl) \<notin> set (loops (close rtpl s2))"
    by (simp add: close_def)
  show "conn_id (pc rtpl) \<notin> set (leaked (close rtpl s2))"
    by (simp add: close_def leaked_def)
  assume same: "opened s2 = opened s1" and fresh: "conn_id (pc rtpl) \<notin> conn_id ` set (opened s)"
  from newServerUDPListener_frame [OF assms(1)]
  have o1: "opened s1 = opened s @ [pc rtpl]" and c1: "closed s1 = closed s"
    by simp_all
  from newServerUDPListener_frame [OF assms(2)] have c2: "closed s2 = closed s1"
    by simp
  have "filter (\<lambda>i. i \<noteq> conn_id (pc rtpl) \<and> i \<notin> set (closed s)) (map conn_id (opened s))
          = filter (\<lambda>i. i \<notin> set (closed s)) (map conn_id (opened s))"
    using fresh by (intro filter_cong) (auto simp: image_iff)
  then show "leaked (close rtpl s2) = leaked s"
    by (simp add: close_def leaked_def same o1 c1 c2)
qed

lemma pair_first_failure:
  assumes "(newServerUDPListener L listenPacket wt True
             (JoinHostPort L (IP_String L a) (FormatInt L rtp 10)) s
           :: 'h serverUDPListener result \<times> sys) = (Err err, s1)"
  shows "(newServerUDPListenerMulticastPair L listenPacket wt rtp rtcp a s
           :: ('h serverUDPListener \<times> 'h serverUDPListener) result \<times> sys) = (Err err, s1)"
  using assms by (simp add: newServerUDPListenerMulticastPair_def)

text \<open>
  The scenario of a busy port: with the RTCP port taken, the RTP listener is shut
  down again and no socket stays open; with the RTP port taken, nothing was opened.
\<close>

lemma pair_port_in_use:
  "(\<exists>s'. (newServerUDPListenerMulticastPair demo_lib (busy_factory ''224.0.0.0:5001'') 10
             5000 5001 [224, 1, 0, 1] sys_empty :: demo_pair)
            = (Err (LibError ''bind: address already in use''), s')
         \<and> map conn_id (opened s') = [1] \<and> closed s' = [1] \<and> loops s' = []
         \<and> leaked s' = [])
   \<and> (newServerUDPListenerMulticastPair demo_lib (busy_factory ''224.0.0.0:5000'') 10
             5000 5001 [224, 1, 0, 1] sys_empty :: demo_pair)
        = (Err (LibError ''bind: address already in use''), sys_empty)"
  by (simp add: newServerUDPListenerMulticastPair_def newServerUDPListener_def
        listen_socket_def joinMulticastGroupOnAtLeastOneInterface_def
        demo_lib_def busy_factory_def demo_factory_def sys_empty_def
        lo_def eth0_def wlan0_def multicast_flag close_def leaked_def Let_def)

text \<open>
  Claim C8 says that the pair constructor leaks no socket when one of its two
  listeners fails. The constructor does close the RTP listener when the RTCP one
  fails (\<open>pair_closes_rtp\<close>), and nothing is left open when the failing step is the
  opening of the RTCP socket. But a listener that fails after its socket was opened
  leaves that socket open: with the receive buffer refused on the second socket,
  the pair returns the error with socket 1 closed and socket 2 open; with no
  interface to join on, the first listener fails and socket 1 stays open.
\<close>

theorem pair_leaks_rtcp_socket:
  "(\<exists>s'. (newServerUDPListenerMulticastPair (buffer_denied 2) demo_factory 10 5000 5001
             [224, 1, 0, 1] sys_empty :: demo_pair)
            = (Err (LibError ''setsockopt: operation not permitted''), s')
         \<and> map conn_id (opened s') = [1, 2] \<and> closed s' = [1] \<and> leaked s' = [2])
   \<and> (\<exists>s'. (newServerUDPListenerMulticastPair no_multicast demo_factory 10 5000 5001
             [224, 1, 0, 1] sys_empty :: demo_pair)
            = (Err (Errorf ''unable to activate multicast on any network interface''), s')
         \<and> map conn_id (opened s') = [1] \<and> closed s' = [] \<and> leaked s' = [1])"
  by (simp add: newServerUDPListenerMulticastPair_def newServerUDPListener_def
        listen_socket_def joinMulticastGroupOnAtLeastOneInterface_def
        buffer_denied_def no_multicast_def demo_lib_def demo_factory_def sys_empty_def
        lo_def eth0_def wlan0_def multicast_flag close_def leaked_def Let_def)

end
